theory Spec2Isabelle
  imports Complex_Main "HOL-Library.Sublist"
begin

section \<open>Data model\<close>

text \<open>
  The interfaces of the recommendation pipeline. A stored JavaScript \<open>number\<close> (a price, a
  rating, a budget) is the \<open>real\<close> value of a finite double; what arithmetic on such
  numbers gives is rounded as the double arithmetic rounds it (see \<open>toDouble\<close> below). A
  string is the list of its UTF-16 code units, each below 256; an optional field is an
  \<open>option\<close>. Field names that clash with a HOL constant or a keyword carry a suffix.
\<close>

record Product =
  id_p :: string
  name :: string
  price :: real
  platform :: string
  rating :: real
  reviews :: string
  description :: "string option"
  url :: "string option"
  thumbnail :: "string option"
  inStock :: "bool option"

record Budget =
  min_b :: real
  max_b :: real

record SearchQuery =
  text_q :: string
  budget :: "Budget option"
  brands :: "string list option"
  categories :: "string list option"
  language :: "string option"

text \<open>
  What \<open>extractQueryEntities\<close> returns is parsed JSON. The retriever reads
  \<open>productType\<close>, \<open>budget\<close> and \<open>budget.max\<close> only; each may be absent. A field
  that is present has the type the extraction prompt asks for.
\<close>

record EntityBudget =
  min_e :: "real option"
  max_e :: "real option"

record Entities =
  productType :: "string option"
  budget_e :: "EntityBudget option"

record UserPreferences =
  budget_pref :: "real option"
  brands_pref :: "string list option"
  categories_pref :: "string list option"
  language_pref :: "string option"

record RAGContext =
  productData :: "Product list"
  userPreferences :: UserPreferences

record RAGRecommendation =
  products :: "Product list"
  analysis :: string
  reasoning :: string
  alternatives :: "Product list option"
  bestValue :: Product
  topRated :: Product

text \<open>A thrown JavaScript \<open>Error\<close>, carrying its message.\<close>

datatype error = Error string | TypeError string

datatype IndianLanguage = Hindi | Tamil | Telugu | Kannada | Marathi | Gujarati

datatype ExtendedIndianLanguage = Native IndianLanguage | Bengali | Punjabi

text \<open>
  The Gemini service is the external collaborator. Each of its methods either returns a
  value or throws; which of the two, and what, is not determined by this code, so the
  service is a record of arbitrary result functions.
\<close>

record GeminiService =
  extractQueryEntities :: "string \<Rightarrow> error + Entities"
  generateRecommendations_svc :: "string \<Rightarrow> RAGContext \<Rightarrow> error + string"
  compareProducts :: "Product list \<Rightarrow> string \<Rightarrow> error + string"
  translateForIndianLanguage :: "string \<Rightarrow> IndianLanguage \<Rightarrow> error + string"

text \<open>The calls made to the service, in order, with their arguments.\<close>

datatype call =
  CallExtract string
| CallGenerate string RAGContext
| CallCompare "Product list" string
| CallTranslate string IndianLanguage

section \<open>Built-in string and array operations\<close>

text \<open>
  \<open>String.prototype.toLowerCase\<close> on code units below 256: the letters A to Z (65 to 90)
  and the letters U+00C0 to U+00DE, the multiplication sign U+00D7 excepted, move up by 32
  to their lower-case forms; every other code unit stays.
\<close>

definition toLowerCase_char :: "char \<Rightarrow> char" where
  "toLowerCase_char c =
     (let n = (of_char c :: nat)
      in if (65 \<le> n \<and> n \<le> 90) \<or> (192 \<le> n \<and> n \<le> 222 \<and> n \<noteq> 215)
         then char_of (n + 32) else c)"

definition toLowerCase :: "string \<Rightarrow> string" where
  "toLowerCase s = map toLowerCase_char s"

text \<open>
  \<open>String.prototype.includes\<close>: the search string is looked for at every start
  position of the receiver, the end included.
\<close>

fun startsWith :: "string \<Rightarrow> string \<Rightarrow> bool" where
  "startsWith s [] = True"
| "startsWith [] (c # cs) = False"
| "startsWith (x # xs) (c # cs) = (x = c \<and> startsWith xs cs)"

fun includes_str :: "string \<Rightarrow> string \<Rightarrow> bool" where
  "includes_str [] t = (t = [])"
| "includes_str (x # xs) t = (startsWith (x # xs) t \<or> includes_str xs t)"

text \<open>\<open>Array.prototype.slice(a, b)\<close> for \<open>0 \<le> a \<le> b\<close>.\<close>

definition slice :: "nat \<Rightarrow> nat \<Rightarrow> 'a list \<Rightarrow> 'a list" where
  "slice a b xs = drop a (take b xs)"

text \<open>
  \<open>Array.prototype.reduce\<close> without an initial value: the first element starts the
  accumulation; on an empty array it throws a TypeError.
\<close>

definition reduce :: "('a \<Rightarrow> 'a \<Rightarrow> 'a) \<Rightarrow> 'a list \<Rightarrow> error + 'a" where
  "reduce f xs =
     (case xs of
        [] \<Rightarrow> Inl (TypeError ''Reduce of empty array with no initial value'')
      | x # rest \<Rightarrow> Inr (foldl f x rest))"

text \<open>\<open>a || b\<close> where \<open>a\<close> is a number or undefined: \<open>a\<close> unless it is undefined or 0.\<close>

definition or_num :: "real option \<Rightarrow> real \<Rightarrow> real" where
  "or_num a b = (case a of None \<Rightarrow> b | Some v \<Rightarrow> if v \<noteq> 0 then v else b)"

section \<open>Double-precision division\<close>

text \<open>
  What a division of two finite doubles gives: a finite double or an infinity. (The
  divisor of the pipeline's only division is never 0, so no NaN arises.) The order is the
  one the comparison operators of JavaScript use.
\<close>

datatype number = NegInfinity | Finite real | PosInfinity

instantiation number :: linorder
begin

fun less_eq_number :: "number \<Rightarrow> number \<Rightarrow> bool" where
  "less_eq_number NegInfinity y = True"
| "less_eq_number (Finite x) NegInfinity = False"
| "less_eq_number (Finite x) (Finite y) = (x \<le> y)"
| "less_eq_number (Finite x) PosInfinity = True"
| "less_eq_number PosInfinity PosInfinity = True"
| "less_eq_number PosInfinity y = False"

definition less_number :: "number \<Rightarrow> number \<Rightarrow> bool" where
  "less_number x y = (x \<le> y \<and> \<not> y \<le> x)"

instance
proof
  fix x y z :: number
  show "(x < y) = (x \<le> y \<and> \<not> y \<le> x)" by (rule less_number_def)
  show "x \<le> x" by (cases x) simp_all
  show "x \<le> y \<Longrightarrow> y \<le> z \<Longrightarrow> x \<le> z" by (cases x; cases y; cases z) simp_all
  show "x \<le> y \<Longrightarrow> y \<le> x \<Longrightarrow> x = y" by (cases x; cases y) simp_all
  show "x \<le> y \<or> y \<le> x" by (cases x; cases y) auto
qed

end

definition pow2 :: "int \<Rightarrow> real" where
  "pow2 e = (if 0 \<le> e then 2 ^ nat e else 1 / 2 ^ nat (- e))"

text \<open>
  The binary exponent of a positive real \<open>a\<close>: the \<open>e\<close> with \<open>2^e \<le> a < 2^(e+1)\<close>, kept
  within -1022 (below it the doubles are subnormal) and 1024 (from there on the quotient
  overflows). It is searched upwards from 0 or downwards from -1.
\<close>

function binaryExponentUp :: "real \<Rightarrow> int \<Rightarrow> int" where
  "binaryExponentUp a e =
     (if 1024 \<le> e \<or> a < pow2 (e + 1) then e else binaryExponentUp a (e + 1))"
  by pat_completeness auto
termination
  by (relation "measure (\<lambda>(a, e). nat (1024 - e))") auto

function binaryExponentDown :: "real \<Rightarrow> int \<Rightarrow> int" where
  "binaryExponentDown a e =
     (if e \<le> - 1022 \<or> pow2 e \<le> a then e else binaryExponentDown a (e - 1))"
  by pat_completeness auto
termination
  by (relation "measure (\<lambda>(a, e). nat (e + 1022))") auto

definition binaryExponent :: "real \<Rightarrow> int" where
  "binaryExponent a = (if 1 \<le> a then binaryExponentUp a 0 else binaryExponentDown a (- 1))"

text \<open>Rounding to the nearest integer, a tie going to the even one.\<close>

definition roundHalfEven :: "real \<Rightarrow> int" where
  "roundHalfEven s =
     (let f = \<lfloor>s\<rfloor>; r = s - of_int f
      in if r < 1 / 2 then f else if 1 / 2 < r then f + 1 else if even f then f else f + 1)"

text \<open>
  IEEE 754 binary64 rounding of a real, to nearest with ties to even: the significand has
  53 bits, so the unit in the last place is \<open>2^(e - 52)\<close>; the result overflows to an
  infinity when it reaches \<open>2^1024\<close>.
\<close>

definition toDouble :: "real \<Rightarrow> number" where
  "toDouble x =
     (if x = 0 then Finite 0
      else
        (let a = \<bar>x\<bar>;
             u = binaryExponent a - 52;
             m = roundHalfEven (a / pow2 u)
         in if 971 < u \<or> (u = 971 \<and> 9007199254740992 \<le> m)
            then (if 0 < x then PosInfinity else NegInfinity)
            else Finite ((if 0 < x then 1 else - 1) * of_int m * pow2 u)))"

text \<open>A real is a double when rounding leaves it as it is.\<close>

definition isDouble :: "real \<Rightarrow> bool" where
  "isDouble x \<longleftrightarrow> toDouble x = Finite x"

text \<open>The double a number stands for: itself when it is a double; otherwise the double
  nearest to it, as for a numeric literal of the source.\<close>

definition nearestDouble :: "real \<Rightarrow> real" where
  "nearestDouble x = (case toDouble x of Finite d \<Rightarrow> d | _ \<Rightarrow> x)"

text \<open>\<open>x / y\<close> for finite doubles \<open>x\<close> and \<open>y\<close>, \<open>y\<close> not 0: the exact quotient of the
  operands, rounded.\<close>

definition jsDivide :: "real \<Rightarrow> real \<Rightarrow> number" where
  "jsDivide x y = toDouble (nearestDouble x / nearestDouble y)"

section \<open>The catalog\<close>

text \<open>
  \<open>productDatabase\<close> is a JavaScript \<open>Map\<close>: keys are unique and iterated in insertion
  order. \<open>set\<close> on an existing key replaces the value in place, on a new key appends.
\<close>

type_synonym productDatabase = "(string \<times> Product list) list"

fun indexProducts :: "productDatabase \<Rightarrow> Product list \<Rightarrow> string \<Rightarrow> productDatabase" where
  "indexProducts [] ps category = [(category, ps)]"
| "indexProducts ((c, old) # rest) ps category =
     (if c = category then (category, ps) # rest
      else (c, old) # indexProducts rest ps category)"

section \<open>Retrieval\<close>

text \<open>The test of the loop over the catalog, and the two filters of its body.\<close>

definition categoryMatches :: "string \<Rightarrow> string \<Rightarrow> bool" where
  "categoryMatches category pt =
     (includes_str (toLowerCase category) (toLowerCase pt) \<or>
      includes_str (toLowerCase pt) (toLowerCase category))"

definition maxBudget :: "SearchQuery \<Rightarrow> Entities \<Rightarrow> real" where
  "maxBudget query entities =
     or_num (map_option max_b (budget query))
       (or_num (case budget_e entities of None \<Rightarrow> None | Some b \<Rightarrow> max_e b) 0)"

definition budgetFilter :: "SearchQuery \<Rightarrow> Entities \<Rightarrow> Product list \<Rightarrow> Product list" where
  "budgetFilter query entities ps =
     (if budget query \<noteq> None \<or> budget_e entities \<noteq> None then
        (if maxBudget query entities > 0
         then filter (\<lambda>p. price p \<le> maxBudget query entities) ps
         else ps)
      else ps)"

definition brandFilter :: "SearchQuery \<Rightarrow> Product list \<Rightarrow> Product list" where
  "brandFilter query ps =
     (case brands query of
        None \<Rightarrow> ps
      | Some bs \<Rightarrow>
          if length bs > 0
          then filter (\<lambda>p. list_ex (\<lambda>b. includes_str (toLowerCase (name p)) (toLowerCase b)) bs) ps
          else ps)"

text \<open>The loop over the entries of the catalog, pushing each relevant category's
  filtered products.\<close>

fun searchCategories ::
  "SearchQuery \<Rightarrow> Entities \<Rightarrow> string \<Rightarrow> productDatabase \<Rightarrow> Product list" where
  "searchCategories query entities pt [] = []"
| "searchCategories query entities pt ((category, ps) # rest) =
     (if categoryMatches category pt
      then brandFilter query (budgetFilter query entities ps)
             @ searchCategories query entities pt rest
      else searchCategories query entities pt rest)"

text \<open>\<open>sort((a, b) => b.rating - a.rating)\<close>: a stable sort, descending by rating.\<close>

definition sortByRating :: "Product list \<Rightarrow> Product list" where
  "sortByRating ps = sort_key (\<lambda>p. - rating p) ps"

text \<open>The body of \<open>retrieveRelevantProducts\<close> once the entities are there.\<close>

definition retrieveWith :: "productDatabase \<Rightarrow> SearchQuery \<Rightarrow> Entities \<Rightarrow> Product list" where
  "retrieveWith db query entities =
     (let pt = (case productType entities of None \<Rightarrow> [] | Some s \<Rightarrow> s);
          relevantProducts = searchCategories query entities pt db
      in slice 0 10 (sortByRating relevantProducts))"

text \<open>\<open>retrieveRelevantProducts\<close>: any error of the extraction is caught, and the
  result is then the empty list.\<close>

definition retrieveRelevantProducts ::
  "GeminiService \<Rightarrow> productDatabase \<Rightarrow> SearchQuery \<Rightarrow> call list \<times> Product list" where
  "retrieveRelevantProducts svc db query =
     (case extractQueryEntities svc (text_q query) of
        Inl err \<Rightarrow> ([CallExtract (text_q query)], [])
      | Inr entities \<Rightarrow> ([CallExtract (text_q query)], retrieveWith db query entities))"

section \<open>Selection and the recommendation pipeline\<close>

text \<open>\<open>p.price / (p.rating || 1)\<close>, the quantity the \<open>bestValue\<close> reducer compares.\<close>

definition valueRatio :: "Product \<Rightarrow> number" where
  "valueRatio p = jsDivide (price p) (or_num (Some (rating p)) 1)"

text \<open>The callbacks of the two \<open>reduce\<close> calls of step 5.\<close>

definition bestValueStep :: "Product \<Rightarrow> Product \<Rightarrow> Product" where
  "bestValueStep prev current = (if valueRatio prev > valueRatio current then current else prev)"

definition topRatedStep :: "Product \<Rightarrow> Product \<Rightarrow> Product" where
  "topRatedStep prev current = (if rating prev > rating current then prev else current)"

definition noProductsMessage :: string where
  "noProductsMessage =
     ''No products found matching your criteria. Please try a different search.''"

definition ragContextOf :: "SearchQuery \<Rightarrow> Product list \<Rightarrow> RAGContext" where
  "ragContextOf query relevantProducts =
     \<lparr> productData = relevantProducts,
       userPreferences =
         \<lparr> budget_pref = map_option max_b (budget query),
           brands_pref = brands query,
           categories_pref = categories query,
           language_pref = language query \<rparr> \<rparr>"

text \<open>Step 5 and the assembly of the recommendation, once both external calls have
  returned.\<close>

definition selectAndAssemble ::
  "Product list \<Rightarrow> Product list \<Rightarrow> string \<Rightarrow> string \<Rightarrow> error + RAGRecommendation"
  where
  "selectAndAssemble relevantProducts topProducts analysis_text comparison =
     (case reduce bestValueStep relevantProducts of
        Inl err \<Rightarrow> Inl err
      | Inr bv \<Rightarrow>
          (case reduce topRatedStep relevantProducts of
             Inl err \<Rightarrow> Inl err
           | Inr tr \<Rightarrow>
               Inr \<lparr> products = topProducts,
                     analysis = analysis_text,
                     reasoning = comparison,
                     alternatives = Some (slice 5 10 relevantProducts),
                     bestValue = bv,
                     topRated = tr \<rparr>))"

text \<open>
  \<open>generateRecommendations\<close>: the calls made to the service and either the error thrown
  or the recommendation. The \<open>catch\<close> block logs and rethrows, so an error leaves as it
  was thrown.
\<close>

definition generateRecommendations ::
  "GeminiService \<Rightarrow> productDatabase \<Rightarrow> SearchQuery \<Rightarrow> call list \<times> (error + RAGRecommendation)"
  where
  "generateRecommendations svc db query =
     (let (calls1, relevantProducts) = retrieveRelevantProducts svc db query in
      if length relevantProducts = 0 then (calls1, Inl (Error noProductsMessage))
      else
        (let ragContext = ragContextOf query relevantProducts;
             calls2 = calls1 @ [CallGenerate (text_q query) ragContext]
         in (case generateRecommendations_svc svc (text_q query) ragContext of
               Inl err \<Rightarrow> (calls2, Inl err)
             | Inr analysis_text \<Rightarrow>
                 (let topProducts = slice 0 5 relevantProducts;
                      calls3 = calls2 @ [CallCompare topProducts (text_q query)]
                  in (case compareProducts svc topProducts (text_q query) of
                        Inl err \<Rightarrow> (calls3, Inl err)
                      | Inr comparison \<Rightarrow>
                          (calls3,
                           selectAndAssemble relevantProducts topProducts analysis_text
                             comparison))))))"

section \<open>Translation with a Hindi fallback\<close>

record LocalizedContent =
  language_lc :: ExtendedIndianLanguage
  originalText :: string
  translatedText :: string
  translatedAt :: nat

text \<open>\<open>translationCache\<close> is a \<open>Map\<close> from the key string to the cached content.\<close>

type_synonym translationCache = "string \<rightharpoonup> LocalizedContent"

text \<open>The string literal each language code stands for.\<close>

fun codeOfIndian :: "IndianLanguage \<Rightarrow> string" where
  "codeOfIndian Hindi = ''hindi''"
| "codeOfIndian Tamil = ''tamil''"
| "codeOfIndian Telugu = ''telugu''"
| "codeOfIndian Kannada = ''kannada''"
| "codeOfIndian Marathi = ''marathi''"
| "codeOfIndian Gujarati = ''gujarati''"

fun codeOf :: "ExtendedIndianLanguage \<Rightarrow> string" where
  "codeOf (Native l) = codeOfIndian l"
| "codeOf Bengali = ''bengali''"
| "codeOf Punjabi = ''punjabi''"

definition cacheKeyOf :: "string \<Rightarrow> ExtendedIndianLanguage \<Rightarrow> string" where
  "cacheKeyOf txt lang = txt @ '':'' @ codeOf lang"

definition fallbackMarker :: string where
  "fallbackMarker = ''[Fallback via Hindi] ''"

text \<open>
  \<open>translateToIndianLanguage\<close>: the result is the calls made to the service, the cache
  afterwards, and the returned text or the error thrown. \<open>now\<close> is the clock read by
  \<open>new Date()\<close>.
\<close>

definition translateToIndianLanguage ::
  "GeminiService \<Rightarrow> nat \<Rightarrow> translationCache \<Rightarrow> string \<Rightarrow> ExtendedIndianLanguage \<Rightarrow> bool
     \<Rightarrow> (call list \<times> translationCache) \<times> (error + string)" where
  "translateToIndianLanguage svc now cache txt lang useCache =
     (let cacheKey = cacheKeyOf txt lang in
      if useCache \<and> cache cacheKey \<noteq> None
      then (([], cache), Inr (translatedText (the (cache cacheKey))))
      else
        (case lang of
           Native l \<Rightarrow>
             (case translateForIndianLanguage svc txt l of
                Inl err \<Rightarrow> (([CallTranslate txt l], cache), Inl err)
              | Inr t \<Rightarrow>
                  (([CallTranslate txt l],
                    cache(cacheKey \<mapsto>
                      \<lparr> language_lc = lang, originalText = txt, translatedText = t,
                        translatedAt = now \<rparr>)),
                   Inr t))
         | _ \<Rightarrow>
             (case translateForIndianLanguage svc txt Hindi of
                Inl err \<Rightarrow> (([CallTranslate txt Hindi], cache), Inl err)
              | Inr t \<Rightarrow>
                  (([CallTranslate txt Hindi],
                    cache(cacheKey \<mapsto>
                      \<lparr> language_lc = lang, originalText = txt,
                        translatedText = fallbackMarker @ t, translatedAt = now \<rparr>)),
                   Inr (fallbackMarker @ t)))))"

text \<open>The caches the service can be in: empty at construction, then changed by
  \<open>translateToIndianLanguage\<close> only.\<close>

inductive reachableCache :: "translationCache \<Rightarrow> bool" where
  initial: "reachableCache Map.empty"
| translated:
    "reachableCache cache \<Longrightarrow>
     translateToIndianLanguage svc now cache txt lang useCache = ((calls, cache'), res) \<Longrightarrow>
     reachableCache cache'"

section \<open>The specification's wording\<close>

text \<open>The effective rating as the specification words it: the rating if it is greater
  than 0, and 1 otherwise.\<close>

definition effectiveRating_spec :: "Product \<Rightarrow> real" where
  "effectiveRating_spec p = (if rating p > 0 then rating p else 1)"

text \<open>The effective maximum budget as the specification words it: the query's maximum if
  present, otherwise the intent's maximum if present and greater than 0.\<close>

definition effectiveBudget_spec :: "SearchQuery \<Rightarrow> Entities \<Rightarrow> real option" where
  "effectiveBudget_spec query entities =
     (case budget query of
        Some b \<Rightarrow> Some (max_b b)
      | None \<Rightarrow>
          (case budget_e entities of
             None \<Rightarrow> None
           | Some eb \<Rightarrow>
               (case max_e eb of
                  None \<Rightarrow> None
                | Some m \<Rightarrow> if m > 0 then Some m else None)))"

text \<open>The empty intent: no field extracted.\<close>

definition emptyIntent :: Entities where
  "emptyIntent = \<lparr> productType = None, budget_e = None \<rparr>"

section \<open>Example data\<close>

definition exampleProduct :: "string \<Rightarrow> real \<Rightarrow> real \<Rightarrow> Product" where
  "exampleProduct i pr r =
     \<lparr> id_p = i, name = i, price = pr, platform = ''shop'', rating = r, reviews = ''ok'',
       description = None, url = None, thumbnail = None, inStock = None \<rparr>"

definition exampleQuery :: "Budget option \<Rightarrow> SearchQuery" where
  "exampleQuery b =
     \<lparr> text_q = ''best laptops'', budget = b, brands = None, categories = None,
       language = None \<rparr>"

definition exampleIntent :: "string \<Rightarrow> Entities" where
  "exampleIntent pt = \<lparr> productType = Some pt, budget_e = None \<rparr>"

text \<open>A service whose extraction gives the outcome \<open>ex\<close> and whose other calls succeed.\<close>

definition exampleService :: "error + Entities \<Rightarrow> GeminiService" where
  "exampleService ex =
     \<lparr> extractQueryEntities = (\<lambda>t. ex),
       generateRecommendations_svc = (\<lambda>t c. Inr ''analysis''),
       compareProducts = (\<lambda>ps t. Inr ''comparison''),
       translateForIndianLanguage = (\<lambda>t l. Inr (''translated '' @ t)) \<rparr>"

definition exampleCatalog :: "Product list \<Rightarrow> productDatabase" where
  "exampleCatalog ps = indexProducts [] ps ''laptops''"

text \<open>A catalog larger than the truncation bounds: \<open>n\<close> products, all rated 4.\<close>

definition exampleProducts :: "nat \<Rightarrow> Product list" where
  "exampleProducts n = map (\<lambda>i. exampleProduct (replicate (Suc i) CHR ''x'') (real i) 4) [0..<n]"

text \<open>Eight candidates, already in retrieval order: six rated 5, then a cheap one rated 4,
  then one rated 3.\<close>

definition exampleEight :: "Product list" where
  "exampleEight =
     [exampleProduct ''a'' 100 5, exampleProduct ''b'' 100 5, exampleProduct ''c'' 100 5,
      exampleProduct ''d'' 100 5, exampleProduct ''e'' 100 5, exampleProduct ''f'' 100 5,
      exampleProduct ''g'' 1 4, exampleProduct ''h'' 100 3]"

section \<open>Invariants of the translation cache\<close>

text \<open>Every entry cached for a fallback language holds a text that starts with the
  fallback marker.\<close>

definition fallbackMarked :: "translationCache \<Rightarrow> bool" where
  "fallbackMarked cache \<longleftrightarrow>
     (\<forall>txt lang lc. cache (cacheKeyOf txt lang) = Some lc \<longrightarrow> lang = Bengali \<or> lang = Punjabi \<longrightarrow>
        prefix fallbackMarker (translatedText lc))"

text \<open>Every entry cached for a natively supported language holds a text that does not
  start with the fallback marker.\<close>

definition nativeUnmarked :: "translationCache \<Rightarrow> bool" where
  "nativeUnmarked cache \<longleftrightarrow>
     (\<forall>txt l lc. cache (cacheKeyOf txt (Native l)) = Some lc \<longrightarrow>
        \<not> prefix fallbackMarker (translatedText lc))"

text \<open>A service whose own translations never start with the fallback marker, and the
  caches reachable when only such services are called.\<close>

definition markerFree :: "GeminiService \<Rightarrow> bool" where
  "markerFree svc \<longleftrightarrow>
     (\<forall>txt l t. translateForIndianLanguage svc txt l = Inr t \<longrightarrow> \<not> prefix fallbackMarker t)"

inductive reachableMarkerFree :: "translationCache \<Rightarrow> bool" where
  initial_free: "reachableMarkerFree Map.empty"
| translated_free:
    "reachableMarkerFree cache \<Longrightarrow> markerFree svc \<Longrightarrow>
     translateToIndianLanguage svc now cache txt lang useCache = ((calls, cache'), res) \<Longrightarrow>
     reachableMarkerFree cache'"

section \<open>The selector\<close>

lemma reduce_single: "reduce f [x] = Inr x"
  by (simp add: reduce_def)

lemma reduce_snoc:
  "xs \<noteq> [] \<Longrightarrow> reduce f xs = Inr r \<Longrightarrow> reduce f (xs @ [y]) = Inr (f r y)"
  by (cases xs) (auto simp: reduce_def)

text \<open>A reduction that keeps the accumulator only while it is strictly greater ends on
  the last maximum.\<close>

lemma reduce_keep_last_max:
  fixes key :: "'a \<Rightarrow> real"
  assumes f: "\<And>prev current. f prev current = (if key prev > key current then prev else current)"
    and ne: "xs \<noteq> []"
  shows "\<exists>i<length xs. reduce f xs = Inr (xs ! i)
           \<and> (\<forall>j<length xs. key (xs ! j) \<le> key (xs ! i))
           \<and> (\<forall>j<length xs. i < j \<longrightarrow> key (xs ! j) < key (xs ! i))"
  using ne
proof (induction xs rule: rev_nonempty_induct)
  case (single x)
  show ?case by (simp add: reduce_single)
next
  case (snoc y l)
  from snoc.IH obtain i where i: "i < length l" and r: "reduce f l = Inr (l ! i)"
    and mx: "\<forall>j<length l. key (l ! j) \<le> key (l ! i)"
    and lst: "\<forall>j<length l. i < j \<longrightarrow> key (l ! j) < key (l ! i)"
    by blast
  have step: "reduce f (l @ [y]) = Inr (f (l ! i) y)"
    using reduce_snoc[OF snoc.hyps r] .
  show ?case
  proof (cases "key (l ! i) > key y")
    case True
    have "i < length (l @ [y]) \<and> reduce f (l @ [y]) = Inr ((l @ [y]) ! i)
           \<and> (\<forall>j<length (l @ [y]). key ((l @ [y]) ! j) \<le> key ((l @ [y]) ! i))
           \<and> (\<forall>j<length (l @ [y]). i < j \<longrightarrow> key ((l @ [y]) ! j) < key ((l @ [y]) ! i))"
      using i mx lst True step f by (auto simp: nth_append less_Suc_eq)
    then show ?thesis by blast
  next
    case False
    have "length l < length (l @ [y]) \<and> reduce f (l @ [y]) = Inr ((l @ [y]) ! length l)
           \<and> (\<forall>j<length (l @ [y]). key ((l @ [y]) ! j) \<le> key ((l @ [y]) ! length l))
           \<and> (\<forall>j<length (l @ [y]). length l < j \<longrightarrow>
                  key ((l @ [y]) ! j) < key ((l @ [y]) ! length l))"
      using i mx False step f by (fastforce simp: nth_append less_Suc_eq)
    then show ?thesis by blast
  qed
qed

text \<open>A reduction that replaces the accumulator only by a strictly smaller element ends
  on the first minimum.\<close>

lemma reduce_keep_first_min:
  fixes key :: "'a \<Rightarrow> 'b::linorder"
  assumes f: "\<And>prev current. f prev current = (if key prev > key current then current else prev)"
    and ne: "xs \<noteq> []"
  shows "\<exists>i<length xs. reduce f xs = Inr (xs ! i)
           \<and> (\<forall>j<length xs. key (xs ! i) \<le> key (xs ! j))
           \<and> (\<forall>j<i. key (xs ! i) < key (xs ! j))"
  using ne
proof (induction xs rule: rev_nonempty_induct)
  case (single x)
  show ?case by (simp add: reduce_single)
next
  case (snoc y l)
  from snoc.IH obtain i where i: "i < length l" and r: "reduce f l = Inr (l ! i)"
    and mn: "\<forall>j<length l. key (l ! i) \<le> key (l ! j)"
    and fst: "\<forall>j<i. key (l ! i) < key (l ! j)"
    by blast
  have step: "reduce f (l @ [y]) = Inr (f (l ! i) y)"
    using reduce_snoc[OF snoc.hyps r] .
  show ?case
  proof (cases "key (l ! i) > key y")
    case True
    have "length l < length (l @ [y]) \<and> reduce f (l @ [y]) = Inr ((l @ [y]) ! length l)
           \<and> (\<forall>j<length (l @ [y]). key ((l @ [y]) ! length l) \<le> key ((l @ [y]) ! j))
           \<and> (\<forall>j<length l. key ((l @ [y]) ! length l) < key ((l @ [y]) ! j))"
      using i mn True step f by (fastforce simp: nth_append less_Suc_eq)
    then show ?thesis by blast
  next
    case False
    have "i < length (l @ [y]) \<and> reduce f (l @ [y]) = Inr ((l @ [y]) ! i)
           \<and> (\<forall>j<length (l @ [y]). key ((l @ [y]) ! i) \<le> key ((l @ [y]) ! j))
           \<and> (\<forall>j<i. key ((l @ [y]) ! i) < key ((l @ [y]) ! j))"
      using i mn fst False step f by (auto simp: nth_append less_Suc_eq)
    then show ?thesis by blast
  qed
qed

text \<open>The rounding at work: 1/3 and 0.1 are not doubles, above \<open>2^53\<close> only every other
  integer is one and a tie goes to the even significand, and 114 / 1.2 is the double
  95.\<close>

lemma toDouble_examples:
  "toDouble (1 / 3) = Finite (6004799503160661 / 18014398509481984)
   \<and> toDouble 0.1 = Finite (3602879701896397 / 36028797018963968)
   \<and> toDouble 9007199254740993 = Finite 9007199254740992
   \<and> toDouble 9007199254740995 = Finite 9007199254740996
   \<and> toDouble (- 2.5) = Finite (- 2.5)
   \<and> jsDivide 114 (5404319552844595 / 4503599627370496) = Finite 95"
  by code_simp

lemma nearestDouble_double: "isDouble x \<Longrightarrow> nearestDouble x = x"
  by (simp add: isDouble_def nearestDouble_def)

lemma jsDivide_doubles:
  "isDouble x \<Longrightarrow> isDouble y \<Longrightarrow> jsDivide x y = toDouble (x / y)"
  by (simp add: jsDivide_def nearestDouble_double)

lemma valueRatio_unfold:
  "valueRatio p = jsDivide (price p) (if rating p = 0 then 1 else rating p)"
  by (simp add: valueRatio_def or_num_def)

lemma valueRatio_spec:
  "0 \<le> rating p \<Longrightarrow> valueRatio p = jsDivide (price p) (effectiveRating_spec p)"
  by (simp add: valueRatio_unfold effectiveRating_spec_def)

text \<open>
  Claim C1, as the code has it. For every non-empty candidate list, \<open>topRated\<close> is an
  element of the list whose rating is greater than or equal to the rating of every
  product of the list; among the products that share the maximum rating it is the one
  at the greatest index (the last occurrence).
\<close>

theorem topRated_is_last_maximum:
  assumes "xs \<noteq> []"
  shows "\<exists>i<length xs. reduce topRatedStep xs = Inr (xs ! i)
           \<and> (\<forall>p\<in>set xs. rating p \<le> rating (xs ! i))
           \<and> (\<forall>j<length xs. rating (xs ! j) = rating (xs ! i) \<longrightarrow> j \<le> i)"
proof -
  from reduce_keep_last_max[of topRatedStep rating xs] assms
  obtain i where i: "i < length xs" and r: "reduce topRatedStep xs = Inr (xs ! i)"
    and mx: "\<forall>j<length xs. rating (xs ! j) \<le> rating (xs ! i)"
    and lst: "\<forall>j<length xs. i < j \<longrightarrow> rating (xs ! j) < rating (xs ! i)"
    unfolding topRatedStep_def by blast
  have "\<forall>p\<in>set xs. rating p \<le> rating (xs ! i)"
    using mx by (auto simp: in_set_conv_nth)
  moreover have "\<forall>j<length xs. rating (xs ! j) = rating (xs ! i) \<longrightarrow> j \<le> i"
    using lst by (metis less_irrefl not_le_imp_less)
  ultimately show ?thesis using i r by blast
qed

theorem topRated_is_last_maximum_witness:
  "[exampleProduct ''a'' 10 5, exampleProduct ''b'' 20 5] \<noteq> [] \<and>
   (\<exists>i<length [exampleProduct ''a'' 10 5, exampleProduct ''b'' 20 5].
      reduce topRatedStep [exampleProduct ''a'' 10 5, exampleProduct ''b'' 20 5]
        = Inr ([exampleProduct ''a'' 10 5, exampleProduct ''b'' 20 5] ! i)
      \<and> (\<forall>p\<in>set [exampleProduct ''a'' 10 5, exampleProduct ''b'' 20 5].
            rating p \<le> rating ([exampleProduct ''a'' 10 5, exampleProduct ''b'' 20 5] ! i))
      \<and> (\<forall>j<length [exampleProduct ''a'' 10 5, exampleProduct ''b'' 20 5].
            rating ([exampleProduct ''a'' 10 5, exampleProduct ''b'' 20 5] ! j)
              = rating ([exampleProduct ''a'' 10 5, exampleProduct ''b'' 20 5] ! i)
            \<longrightarrow> j \<le> i))"
  using topRated_is_last_maximum[of "[exampleProduct ''a'' 10 5, exampleProduct ''b'' 20 5]"]
  by blast

text \<open>
  Claim C1 as stated fails on ties. Two products rated 5 are indexed under
  \<open>laptops\<close>; retrieval returns them in catalog order, and \<open>topRated\<close> is the second one,
  not the first-occurring product with the maximum rating.
\<close>

theorem topRated_first_occurrence_counterexample:
  "snd (retrieveRelevantProducts (exampleService (Inr (exampleIntent ''laptops'')))
          (exampleCatalog [exampleProduct ''a'' 10 5, exampleProduct ''b'' 20 5])
          (exampleQuery None))
     = [exampleProduct ''a'' 10 5, exampleProduct ''b'' 20 5]
   \<and> rating (exampleProduct ''a'' 10 5) = rating (exampleProduct ''b'' 20 5)
   \<and> exampleProduct ''a'' 10 5 \<noteq> exampleProduct ''b'' 20 5
   \<and> map_sum id topRated
         (snd (generateRecommendations (exampleService (Inr (exampleIntent ''laptops'')))
                 (exampleCatalog [exampleProduct ''a'' 10 5, exampleProduct ''b'' 20 5])
                 (exampleQuery None)))
       = Inr (exampleProduct ''b'' 20 5)"
  by code_simp

text \<open>
  Claim C2, as the code has it. For every non-empty candidate list, \<open>bestValue\<close> is an
  element of the list (returned as stored) that minimises the quotient of the price by
  the effective rating as the double division computes it (the exact quotient rounded to
  the nearest double), where the effective rating is the rating when that is not 0 and 1
  when it is 0, so the divisor is never 0; among the products that attain the minimum it
  is the first. When no rating of the list is negative, the effective rating is the one
  of the specification (the rating if greater than 0, and 1 otherwise).
\<close>

theorem bestValue_is_first_minimum:
  assumes "xs \<noteq> []"
  shows "\<exists>i<length xs. reduce bestValueStep xs = Inr (xs ! i)
           \<and> (\<forall>p\<in>set xs. or_num (Some (rating p)) 1 \<noteq> 0)
           \<and> (\<forall>p\<in>set xs.
                  jsDivide (price (xs ! i)) (if rating (xs ! i) = 0 then 1 else rating (xs ! i))
                    \<le> jsDivide (price p) (if rating p = 0 then 1 else rating p))
           \<and> (\<forall>j<i.
                  jsDivide (price (xs ! i)) (if rating (xs ! i) = 0 then 1 else rating (xs ! i))
                    < jsDivide (price (xs ! j)) (if rating (xs ! j) = 0 then 1 else rating (xs ! j)))
           \<and> ((\<forall>p\<in>set xs. 0 \<le> rating p) \<longrightarrow>
                  (\<forall>p\<in>set xs.
                     jsDivide (price (xs ! i)) (effectiveRating_spec (xs ! i))
                       \<le> jsDivide (price p) (effectiveRating_spec p))
                  \<and> (\<forall>j<i.
                     jsDivide (price (xs ! i)) (effectiveRating_spec (xs ! i))
                       < jsDivide (price (xs ! j)) (effectiveRating_spec (xs ! j))))"
proof -
  from reduce_keep_first_min[of bestValueStep valueRatio xs] assms
  obtain i where i: "i < length xs" and r: "reduce bestValueStep xs = Inr (xs ! i)"
    and mn: "\<forall>j<length xs. valueRatio (xs ! i) \<le> valueRatio (xs ! j)"
    and fst: "\<forall>j<i. valueRatio (xs ! i) < valueRatio (xs ! j)"
    unfolding bestValueStep_def by blast
  have mn': "\<forall>p\<in>set xs. valueRatio (xs ! i) \<le> valueRatio p"
    using mn by (auto simp: in_set_conv_nth)
  have nz: "\<forall>p\<in>set xs. or_num (Some (rating p)) 1 \<noteq> 0"
    by (simp add: or_num_def)
  have a: "\<forall>p\<in>set xs.
             jsDivide (price (xs ! i)) (if rating (xs ! i) = 0 then 1 else rating (xs ! i))
               \<le> jsDivide (price p) (if rating p = 0 then 1 else rating p)"
    using mn' by (simp only: valueRatio_unfold)
  have b: "\<forall>j<i.
             jsDivide (price (xs ! i)) (if rating (xs ! i) = 0 then 1 else rating (xs ! i))
               < jsDivide (price (xs ! j)) (if rating (xs ! j) = 0 then 1 else rating (xs ! j))"
    using fst by (simp only: valueRatio_unfold)
  have c: "(\<forall>p\<in>set xs. 0 \<le> rating p) \<longrightarrow>
             (\<forall>p\<in>set xs.
                jsDivide (price (xs ! i)) (effectiveRating_spec (xs ! i))
                  \<le> jsDivide (price p) (effectiveRating_spec p))
             \<and> (\<forall>j<i.
                jsDivide (price (xs ! i)) (effectiveRating_spec (xs ! i))
                  < jsDivide (price (xs ! j)) (effectiveRating_spec (xs ! j)))"
  proof (intro impI conjI ballI allI)
    fix p assume nn: "\<forall>p\<in>set xs. 0 \<le> rating p" and p: "p \<in> set xs"
    have "xs ! i \<in> set xs" using i by simp
    then show "jsDivide (price (xs ! i)) (effectiveRating_spec (xs ! i))
                 \<le> jsDivide (price p) (effectiveRating_spec p)"
      using mn' nn p by (metis valueRatio_spec)
  next
    fix j assume nn: "\<forall>p\<in>set xs. 0 \<le> rating p" and j: "j < i"
    have "xs ! i \<in> set xs" "xs ! j \<in> set xs" using i j by simp_all
    then show "jsDivide (price (xs ! i)) (effectiveRating_spec (xs ! i))
                 < jsDivide (price (xs ! j)) (effectiveRating_spec (xs ! j))"
      using fst nn j by (metis valueRatio_spec)
  qed
  show ?thesis using i r nz a b c by blast
qed

text \<open>Two candidates whose quotients differ only before rounding: 114 / 1.2 (1.2 as the
  double nearest to it) and 95 / 1 are both the double 95, and the first product is kept.\<close>

theorem bestValue_is_first_minimum_witness:
  "[exampleProduct ''a'' 114 (5404319552844595 / 4503599627370496), exampleProduct ''b'' 95 1]
     \<noteq> []
   \<and> list_all (\<lambda>p. 0 \<le> rating p)
         [exampleProduct ''a'' 114 (5404319552844595 / 4503599627370496),
          exampleProduct ''b'' 95 1]
   \<and> reduce bestValueStep
         [exampleProduct ''a'' 114 (5404319552844595 / 4503599627370496),
          exampleProduct ''b'' 95 1]
       = Inr (exampleProduct ''a'' 114 (5404319552844595 / 4503599627370496))
   \<and> isDouble (5404319552844595 / 4503599627370496)
   \<and> jsDivide 114 (5404319552844595 / 4503599627370496) = Finite 95
   \<and> (\<exists>i<length [exampleProduct ''a'' 114 (5404319552844595 / 4503599627370496),
                    exampleProduct ''b'' 95 1].
        reduce bestValueStep
          [exampleProduct ''a'' 114 (5404319552844595 / 4503599627370496),
           exampleProduct ''b'' 95 1]
          = Inr ([exampleProduct ''a'' 114 (5404319552844595 / 4503599627370496),
                  exampleProduct ''b'' 95 1] ! i)
        \<and> (\<forall>p\<in>set [exampleProduct ''a'' 114 (5404319552844595 / 4503599627370496),
                      exampleProduct ''b'' 95 1].
               jsDivide
                 (price ([exampleProduct ''a'' 114 (5404319552844595 / 4503599627370496),
                          exampleProduct ''b'' 95 1] ! i))
                 (effectiveRating_spec
                    ([exampleProduct ''a'' 114 (5404319552844595 / 4503599627370496),
                      exampleProduct ''b'' 95 1] ! i))
               \<le> jsDivide (price p) (effectiveRating_spec p)))"
proof -
  let ?xs = "[exampleProduct ''a'' 114 (5404319552844595 / 4503599627370496),
              exampleProduct ''b'' 95 1]"
  have ne: "?xs \<noteq> []" by simp
  have nn: "\<forall>p\<in>set ?xs. 0 \<le> rating p"
    by (simp add: exampleProduct_def)
  have nn': "list_all (\<lambda>p. 0 \<le> rating p) ?xs"
    by (simp add: exampleProduct_def)
  have ev: "reduce bestValueStep ?xs
              = Inr (exampleProduct ''a'' 114 (5404319552844595 / 4503599627370496))"
    by code_simp
  have d: "isDouble (5404319552844595 / 4503599627370496)" by code_simp
  have q: "jsDivide 114 (5404319552844595 / 4503599627370496) = Finite 95" by code_simp
  have ex: "\<exists>i<length ?xs.
        reduce bestValueStep ?xs = Inr (?xs ! i)
        \<and> (\<forall>p\<in>set ?xs.
               jsDivide (price (?xs ! i)) (effectiveRating_spec (?xs ! i))
               \<le> jsDivide (price p) (effectiveRating_spec p))"
    using bestValue_is_first_minimum[OF ne] nn by blast
  show ?thesis
    by (intro conjI) (rule ne, rule nn', rule ev, rule d, rule q, rule ex)
qed

text \<open>
  Claim C2 as stated fails in two ways. A negative rating, which nothing in the code
  excludes, is kept by \<open>rating || 1\<close>: its quotient is negative and wins, while the
  specification's effective rating would be 1 and the other product would win. And the
  quotients are compared after rounding: with prices 1 and the double nearest to 1/3 and
  ratings 3 and 1, both quotients are that same double, so the first product is kept
  although the exact quotient of the second is smaller.
\<close>

theorem bestValue_negative_rating_counterexample:
  "snd (retrieveRelevantProducts (exampleService (Inr (exampleIntent ''laptops'')))
          (exampleCatalog [exampleProduct ''a'' 5 1, exampleProduct ''b'' 10 (- 1)])
          (exampleQuery None))
     = [exampleProduct ''a'' 5 1, exampleProduct ''b'' 10 (- 1)]
   \<and> map_sum id bestValue
         (snd (generateRecommendations (exampleService (Inr (exampleIntent ''laptops'')))
                 (exampleCatalog [exampleProduct ''a'' 5 1, exampleProduct ''b'' 10 (- 1)])
                 (exampleQuery None)))
       = Inr (exampleProduct ''b'' 10 (- 1))
   \<and> price (exampleProduct ''a'' 5 1) / effectiveRating_spec (exampleProduct ''a'' 5 1)
       < price (exampleProduct ''b'' 10 (- 1))
           / effectiveRating_spec (exampleProduct ''b'' 10 (- 1))
   \<and> jsDivide (price (exampleProduct ''a'' 5 1))
         (effectiveRating_spec (exampleProduct ''a'' 5 1))
       < jsDivide (price (exampleProduct ''b'' 10 (- 1)))
           (effectiveRating_spec (exampleProduct ''b'' 10 (- 1)))
   \<and> isDouble (6004799503160661 / 18014398509481984)
   \<and> snd (retrieveRelevantProducts (exampleService (Inr (exampleIntent ''laptops'')))
            (exampleCatalog [exampleProduct ''a'' 1 3,
                             exampleProduct ''b'' (6004799503160661 / 18014398509481984) 1])
            (exampleQuery None))
       = [exampleProduct ''a'' 1 3,
          exampleProduct ''b'' (6004799503160661 / 18014398509481984) 1]
   \<and> map_sum id bestValue
         (snd (generateRecommendations (exampleService (Inr (exampleIntent ''laptops'')))
                 (exampleCatalog [exampleProduct ''a'' 1 3,
                                  exampleProduct ''b'' (6004799503160661 / 18014398509481984) 1])
                 (exampleQuery None)))
       = Inr (exampleProduct ''a'' 1 3)
   \<and> price (exampleProduct ''b'' (6004799503160661 / 18014398509481984) 1)
         / effectiveRating_spec (exampleProduct ''b'' (6004799503160661 / 18014398509481984) 1)
       < price (exampleProduct ''a'' 1 3) / effectiveRating_spec (exampleProduct ''a'' 1 3)"
  by code_simp

text \<open>The doubles nearest to 2.1 and 0.7: divided by 3 and by 1, the first quotient is the
  greater double, so the second product is selected; the same with the literals
  themselves.\<close>

lemma bestValue_rounded_literals:
  "toDouble 2.1 = Finite (4728779608739021 / 2251799813685248)
   \<and> toDouble 0.7 = Finite (3152519739159347 / 4503599627370496)
   \<and> reduce bestValueStep [exampleProduct ''a'' 2.1 3, exampleProduct ''b'' 0.7 1]
       = Inr (exampleProduct ''b'' 0.7 1)
   \<and> reduce bestValueStep
         [exampleProduct ''a'' (4728779608739021 / 2251799813685248) 3,
          exampleProduct ''b'' (3152519739159347 / 4503599627370496) 1]
       = Inr (exampleProduct ''b'' (3152519739159347 / 4503599627370496) 1)"
  by code_simp

section \<open>Retrieval: categories, budget, truncation\<close>

text \<open>Lower-casing leaves the multiplication sign and the sharp s as they are.\<close>

lemma toLowerCase_examples:
  "toLowerCase ''Gaming LAPTOPS'' = ''gaming laptops''
   \<and> toLowerCase [CHR ''C'', CHR ''A'', CHR ''F'', CHR 0xC9] = [CHR ''c'', CHR ''a'', CHR ''f'', CHR 0xE9]
   \<and> toLowerCase [CHR 0xD7, CHR 0xDF, CHR 0xDE] = [CHR 0xD7, CHR 0xDF, CHR 0xFE]"
  by code_simp

lemma startsWith_prefix: "startsWith s t \<longleftrightarrow> prefix t s"
  by (induction s t rule: startsWith.induct) auto

lemma includes_str_sublist: "includes_str s t \<longleftrightarrow> sublist t s"
  by (induction s) (auto simp: startsWith_prefix sublist_Cons_right)

lemma categoryMatches_sublist:
  "categoryMatches category pt \<longleftrightarrow>
     sublist (toLowerCase pt) (toLowerCase category) \<or>
     sublist (toLowerCase category) (toLowerCase pt)"
  by (simp add: categoryMatches_def includes_str_sublist)

lemma searchCategories_concat:
  "searchCategories query entities pt db =
     concat (map (\<lambda>(category, ps). brandFilter query (budgetFilter query entities ps))
       (filter (\<lambda>(category, ps). categoryMatches category pt) db))"
  by (induction db) auto

text \<open>The sort is descending by rating and keeps products of equal rating in their
  order.\<close>

lemma sortByRating_descending:
  "sorted (map (\<lambda>p. - rating p) (sortByRating ps))"
  by (simp add: sortByRating_def)

lemma sortByRating_stable:
  "filter (\<lambda>p. rating p = r) (sortByRating ps) = filter (\<lambda>p. rating p = r) ps"
  using sort_key_stable[of "\<lambda>p. - rating p" "- r" ps] by (simp add: sortByRating_def)

lemma set_slice_subset: "set (slice a b xs) \<subseteq> set xs"
  unfolding slice_def by (meson order_trans set_drop_subset set_take_subset)

lemma set_retrieveWith:
  "set (retrieveWith db query entities)
     \<subseteq> set (searchCategories query entities
             (case productType entities of None \<Rightarrow> [] | Some s \<Rightarrow> s) db)"
proof -
  have "set (slice 0 10 (sortByRating xs)) \<subseteq> set xs" for xs :: "Product list"
    using set_slice_subset[of 0 10 "sortByRating xs"] by (simp add: sortByRating_def)
  then show ?thesis by (simp add: retrieveWith_def Let_def)
qed

lemma length_retrieveWith: "length (retrieveWith db query entities) \<le> 10"
  by (simp add: retrieveWith_def Let_def slice_def)

lemma set_brandFilter: "set (brandFilter query ps) \<subseteq> set ps"
  by (auto simp: brandFilter_def split: option.splits)

lemma maxBudget_pos_present:
  "0 < maxBudget query entities \<Longrightarrow> budget query \<noteq> None \<or> budget_e entities \<noteq> None"
  by (auto simp: maxBudget_def or_num_def split: option.splits)

lemma budgetFilter_unfold:
  "budgetFilter query entities ps =
     (if 0 < maxBudget query entities
      then filter (\<lambda>p. price p \<le> maxBudget query entities) ps else ps)"
  using maxBudget_pos_present[of query entities] by (auto simp: budgetFilter_def)

lemma maxBudget_spec_pos:
  "effectiveBudget_spec query entities = Some B \<Longrightarrow> 0 < B \<Longrightarrow> maxBudget query entities = B"
  by (auto simp: effectiveBudget_spec_def maxBudget_def or_num_def split: option.splits if_splits)

lemma maxBudget_spec_none:
  "effectiveBudget_spec query entities = None \<Longrightarrow> \<not> 0 < maxBudget query entities"
  by (auto simp: effectiveBudget_spec_def maxBudget_def or_num_def split: option.splits if_splits)

lemma searchCategories_price:
  assumes "0 < maxBudget query entities" "p \<in> set (searchCategories query entities pt db)"
  shows "price p \<le> maxBudget query entities"
  using assms(2)
proof (induction db)
  case Nil then show ?case by simp
next
  case (Cons e db)
  obtain c ps where e: "e = (c, ps)" by (cases e)
  from Cons show ?case
    using set_brandFilter[of query "budgetFilter query entities ps"] assms(1)
    by (auto simp: e budgetFilter_unfold split: if_splits)
qed

lemma retrieveRelevantProducts_Inr:
  "extractQueryEntities svc (text_q query) = Inr entities \<Longrightarrow>
   retrieveRelevantProducts svc db query = ([CallExtract (text_q query)], retrieveWith db query entities)"
  by (simp add: retrieveRelevantProducts_def)

lemma retrieveRelevantProducts_Inl:
  "extractQueryEntities svc (text_q query) = Inl err \<Longrightarrow>
   retrieveRelevantProducts svc db query = ([CallExtract (text_q query)], [])"
  by (simp add: retrieveRelevantProducts_def)

text \<open>
  Claim C5, as the code has it. Let B be the effective maximum budget of the specification
  (the query's maximum if present, otherwise the intent's maximum if present and greater
  than 0). When B resolves and is greater than 0, every product of the retrieval result has
  a price of at most B. When no B resolves, the budget filter changes nothing. In every
  case the filter keeps the products priced at most \<open>maxBudget\<close> when that is greater
  than 0, and changes nothing otherwise.
\<close>

theorem budget_filter_bounds_prices:
  assumes "extractQueryEntities svc (text_q query) = Inr entities"
  shows "(\<forall>B. effectiveBudget_spec query entities = Some B \<and> 0 < B \<longrightarrow>
            (\<forall>p\<in>set (snd (retrieveRelevantProducts svc db query)). price p \<le> B))
       \<and> (effectiveBudget_spec query entities = None \<longrightarrow>
            (\<forall>ps. budgetFilter query entities ps = ps))
       \<and> (\<forall>ps. budgetFilter query entities ps =
            (if 0 < maxBudget query entities
             then filter (\<lambda>p. price p \<le> maxBudget query entities) ps else ps))"
proof (intro conjI allI impI ballI)
  fix B p
  assume B: "effectiveBudget_spec query entities = Some B \<and> 0 < B"
    and p: "p \<in> set (snd (retrieveRelevantProducts svc db query))"
  from B have mb: "maxBudget query entities = B" by (simp add: maxBudget_spec_pos)
  from p have "p \<in> set (retrieveWith db query entities)"
    by (simp add: retrieveRelevantProducts_Inr[OF assms])
  then have "p \<in> set (searchCategories query entities
             (case productType entities of None \<Rightarrow> [] | Some s \<Rightarrow> s) db)"
    using set_retrieveWith by blast
  then show "price p \<le> B"
    using searchCategories_price[of query entities p] mb B by simp
next
  fix ps assume "effectiveBudget_spec query entities = None"
  then show "budgetFilter query entities ps = ps"
    by (simp add: budgetFilter_unfold maxBudget_spec_none)
next
  fix ps show "budgetFilter query entities ps =
            (if 0 < maxBudget query entities
             then filter (\<lambda>p. price p \<le> maxBudget query entities) ps else ps)"
    by (rule budgetFilter_unfold)
qed

lemma toLowerCase_Nil: "toLowerCase [] = []" by (simp add: toLowerCase_def)

lemma categoryMatches_empty: "categoryMatches category []"
  by (simp add: categoryMatches_sublist toLowerCase_Nil)

lemma slice_Nil_iff: "slice 0 10 xs = [] \<longleftrightarrow> xs = []"
  by (simp add: slice_def)

lemma sortByRating_Nil_iff: "sortByRating xs = [] \<longleftrightarrow> xs = []"
  by (metis length_0_conv length_sort sortByRating_def)

text \<open>
  Claim C10. When the extracted product type is absent or the empty string, every category
  name passes the substring test, and the retrieval result is the first 10, by descending
  rating, of the products of all indexed categories that pass the budget and brand
  filters; it is empty only when those filters leave no product at all.
\<close>

theorem empty_productType_matches_all:
  assumes "extractQueryEntities svc (text_q query) = Inr entities"
    and "productType entities = None \<or> productType entities = Some []"
  shows "(\<forall>category. categoryMatches category [])
       \<and> snd (retrieveRelevantProducts svc db query) =
           slice 0 10 (sortByRating (concat
             (map (\<lambda>(category, ps). brandFilter query (budgetFilter query entities ps)) db)))
       \<and> (snd (retrieveRelevantProducts svc db query) = [] \<longleftrightarrow>
            (\<forall>(category, ps)\<in>set db. brandFilter query (budgetFilter query entities ps) = []))"
proof -
  have pt: "(case productType entities of None \<Rightarrow> [] | Some s \<Rightarrow> s) = []"
    using assms(2) by auto
  have all: "filter (\<lambda>(category, ps). categoryMatches category []) db = db"
    by (simp add: categoryMatches_empty)
  have r: "snd (retrieveRelevantProducts svc db query) =
           slice 0 10 (sortByRating (concat
             (map (\<lambda>(category, ps). brandFilter query (budgetFilter query entities ps)) db)))"
    by (simp add: retrieveRelevantProducts_Inr[OF assms(1)] retrieveWith_def pt
        searchCategories_concat all)
  have e: "snd (retrieveRelevantProducts svc db query) = [] \<longleftrightarrow>
            (\<forall>(category, ps)\<in>set db. brandFilter query (budgetFilter query entities ps) = [])"
    unfolding r slice_Nil_iff sortByRating_Nil_iff by auto
  show ?thesis using categoryMatches_empty r e by blast
qed

text \<open>
  Claim C6. For every catalog and every product type, the products gathered for retrieval
  are, in catalog order, the filtered products of exactly those categories for which the
  lower-cased product type is a substring of the lower-cased category name or the
  lower-cased category name is a substring of the lower-cased product type.
\<close>

theorem category_considered_iff_substring:
  "searchCategories query entities pt db =
     concat (map (\<lambda>(category, ps). brandFilter query (budgetFilter query entities ps))
       (filter (\<lambda>(category, ps).
                  sublist (toLowerCase pt) (toLowerCase category) \<or>
                  sublist (toLowerCase category) (toLowerCase pt)) db))"
  by (simp add: searchCategories_concat categoryMatches_sublist)


text \<open>The specification's end-to-end scenario: prices 40000, 55000 and 70000 with a budget
  maximum of 60000; and the same intent without any budget.\<close>

theorem budget_filter_bounds_prices_witness:
  "extractQueryEntities (exampleService (Inr (exampleIntent ''laptops'')))
      (text_q (exampleQuery (Some \<lparr> min_b = 0, max_b = 60000 \<rparr>)))
     = Inr (exampleIntent ''laptops'')
   \<and> effectiveBudget_spec (exampleQuery (Some \<lparr> min_b = 0, max_b = 60000 \<rparr>))
         (exampleIntent ''laptops'') = Some 60000
   \<and> (0::real) < 60000
   \<and> list_all (\<lambda>p. price p \<le> 60000)
         (snd (retrieveRelevantProducts (exampleService (Inr (exampleIntent ''laptops'')))
                 (exampleCatalog [exampleProduct ''a'' 40000 4, exampleProduct ''b'' 55000 4.8,
                                  exampleProduct ''c'' 70000 3])
                 (exampleQuery (Some \<lparr> min_b = 0, max_b = 60000 \<rparr>))))
   \<and> extractQueryEntities (exampleService (Inr (exampleIntent ''laptops'')))
         (text_q (exampleQuery None)) = Inr (exampleIntent ''laptops'')
   \<and> effectiveBudget_spec (exampleQuery None) (exampleIntent ''laptops'') = None
   \<and> budgetFilter (exampleQuery None) (exampleIntent ''laptops'')
         [exampleProduct ''c'' 70000 3] = [exampleProduct ''c'' 70000 3]"
proof -
  have h1: "extractQueryEntities (exampleService (Inr (exampleIntent ''laptops'')))
      (text_q (exampleQuery (Some \<lparr> min_b = 0, max_b = 60000 \<rparr>)))
     = Inr (exampleIntent ''laptops'')"
    by (simp add: exampleService_def)
  have h2: "extractQueryEntities (exampleService (Inr (exampleIntent ''laptops'')))
         (text_q (exampleQuery None)) = Inr (exampleIntent ''laptops'')"
    by (simp add: exampleService_def)
  have b1: "effectiveBudget_spec (exampleQuery (Some \<lparr> min_b = 0, max_b = 60000 \<rparr>))
         (exampleIntent ''laptops'') = Some 60000"
    by (simp add: effectiveBudget_spec_def exampleQuery_def)
  have b2: "effectiveBudget_spec (exampleQuery None) (exampleIntent ''laptops'') = None"
    by (simp add: effectiveBudget_spec_def exampleQuery_def exampleIntent_def)
  show ?thesis
    using budget_filter_bounds_prices[OF h1] budget_filter_bounds_prices[OF h2] h1 h2 b1 b2
    by (simp add: list_all_iff)
qed

text \<open>
  Claim C5 as stated fails when the query's maximum is present and 0: the specification
  resolves B = 0, while \<open>query.budget?.max || ...\<close> skips a 0, so nothing is filtered and a
  product priced 100 is retrieved.
\<close>

theorem budget_zero_counterexample:
  "effectiveBudget_spec (exampleQuery (Some \<lparr> min_b = 0, max_b = 0 \<rparr>))
      (exampleIntent ''laptops'') = Some 0
   \<and> snd (retrieveRelevantProducts (exampleService (Inr (exampleIntent ''laptops'')))
          (exampleCatalog [exampleProduct ''a'' 100 4])
          (exampleQuery (Some \<lparr> min_b = 0, max_b = 0 \<rparr>)))
       = [exampleProduct ''a'' 100 4]
   \<and> \<not> price (exampleProduct ''a'' 100 4) \<le> 0"
  by code_simp

theorem category_considered_iff_substring_witness:
  "sublist (toLowerCase ''laptops'') (toLowerCase ''Gaming Laptops'')
   \<and> \<not> sublist (toLowerCase ''phones'') (toLowerCase ''Gaming Laptops'')
   \<and> \<not> sublist (toLowerCase ''Gaming Laptops'') (toLowerCase ''phones'')
   \<and> searchCategories (exampleQuery None) (exampleIntent ''Gaming Laptops'') ''Gaming Laptops''
         [(''laptops'', [exampleProduct ''a'' 10 5]), (''phones'', [exampleProduct ''b'' 20 5])]
       = [exampleProduct ''a'' 10 5]"
proof -
  have m1: "sublist (toLowerCase ''laptops'') (toLowerCase ''Gaming Laptops'')" by code_simp
  have m2: "\<not> sublist (toLowerCase ''phones'') (toLowerCase ''Gaming Laptops'')" by code_simp
  have m3: "\<not> sublist (toLowerCase ''Gaming Laptops'') (toLowerCase ''phones'')" by code_simp
  have f: "brandFilter (exampleQuery None)
             (budgetFilter (exampleQuery None) (exampleIntent ''Gaming Laptops'')
                [exampleProduct ''a'' 10 5]) = [exampleProduct ''a'' 10 5]"
    by (simp add: brandFilter_def budgetFilter_def exampleQuery_def exampleIntent_def)
  show ?thesis
    using category_considered_iff_substring[of "exampleQuery None"
        "exampleIntent ''Gaming Laptops''" "''Gaming Laptops''"
        "[(''laptops'', [exampleProduct ''a'' 10 5]), (''phones'', [exampleProduct ''b'' 20 5])]"]
      m1 m2 m3 f
    by simp
qed

theorem empty_productType_matches_all_witness:
  "extractQueryEntities (exampleService (Inr emptyIntent)) (text_q (exampleQuery None))
     = Inr emptyIntent
   \<and> (productType emptyIntent = None \<or> productType emptyIntent = Some [])
   \<and> snd (retrieveRelevantProducts (exampleService (Inr emptyIntent))
            [(''laptops'', [exampleProduct ''a'' 10 4]), (''phones'', [exampleProduct ''b'' 20 5])]
            (exampleQuery None))
       = slice 0 10 (sortByRating (concat
           (map (\<lambda>(category, ps).
                   brandFilter (exampleQuery None) (budgetFilter (exampleQuery None) emptyIntent ps))
              [(''laptops'', [exampleProduct ''a'' 10 4]),
               (''phones'', [exampleProduct ''b'' 20 5])])))"
proof -
  have h: "extractQueryEntities (exampleService (Inr emptyIntent)) (text_q (exampleQuery None))
     = Inr emptyIntent"
    by (simp add: exampleService_def)
  have e: "productType emptyIntent = None \<or> productType emptyIntent = Some []"
    by (simp add: emptyIntent_def)
  show ?thesis
    using empty_productType_matches_all[OF h e] h e by blast
qed

section \<open>The recommendation pipeline\<close>

lemma fst_retrieveRelevantProducts:
  "fst (retrieveRelevantProducts svc db query) = [CallExtract (text_q query)]"
  by (simp add: retrieveRelevantProducts_def split: sum.splits)

lemma length_retrieveRelevantProducts:
  "length (snd (retrieveRelevantProducts svc db query)) \<le> 10"
  by (simp add: retrieveRelevantProducts_def length_retrieveWith split: sum.splits)

lemma generateRecommendations_empty:
  assumes "snd (retrieveRelevantProducts svc db query) = []"
  shows "generateRecommendations svc db query
           = ([CallExtract (text_q query)], Inl (Error noProductsMessage))"
proof -
  have "retrieveRelevantProducts svc db query = ([CallExtract (text_q query)], [])"
    using assms fst_retrieveRelevantProducts[of svc db query]
    by (cases "retrieveRelevantProducts svc db query") simp
  then show ?thesis by (simp add: generateRecommendations_def)
qed

lemma generateRecommendations_nonempty:
  assumes "snd (retrieveRelevantProducts svc db query) = cands" "cands \<noteq> []"
  shows "generateRecommendations svc db query =
     (case generateRecommendations_svc svc (text_q query) (ragContextOf query cands) of
        Inl err \<Rightarrow>
          ([CallExtract (text_q query), CallGenerate (text_q query) (ragContextOf query cands)],
           Inl err)
      | Inr a \<Rightarrow>
          (case compareProducts svc (slice 0 5 cands) (text_q query) of
             Inl err \<Rightarrow>
               ([CallExtract (text_q query), CallGenerate (text_q query) (ragContextOf query cands),
                 CallCompare (slice 0 5 cands) (text_q query)], Inl err)
           | Inr c \<Rightarrow>
               ([CallExtract (text_q query), CallGenerate (text_q query) (ragContextOf query cands),
                 CallCompare (slice 0 5 cands) (text_q query)],
                selectAndAssemble cands (slice 0 5 cands) a c)))"
proof -
  have "retrieveRelevantProducts svc db query = ([CallExtract (text_q query)], cands)"
    using assms(1) fst_retrieveRelevantProducts[of svc db query]
    by (cases "retrieveRelevantProducts svc db query") simp
  then show ?thesis
    using assms(2) by (simp add: generateRecommendations_def Let_def split: sum.splits)
qed

lemma selectAndAssemble_nonempty:
  "cands \<noteq> [] \<Longrightarrow> \<exists>r. selectAndAssemble cands tops a c = Inr r"
  by (cases cands) (simp_all add: selectAndAssemble_def reduce_def)

text \<open>With candidates, an error of the pipeline is the error thrown by the generation
  call or by the comparison call.\<close>

lemma errors_with_candidates_are_external:
  assumes "snd (retrieveRelevantProducts svc db query) = cands" "cands \<noteq> []"
    and "snd (generateRecommendations svc db query) = Inl e"
  shows "generateRecommendations_svc svc (text_q query) (ragContextOf query cands) = Inl e
       \<or> compareProducts svc (slice 0 5 cands) (text_q query) = Inl e"
proof (cases "generateRecommendations_svc svc (text_q query) (ragContextOf query cands)")
  case (Inl err)
  with assms show ?thesis by (simp add: generateRecommendations_nonempty)
next
  case a: (Inr a)
  show ?thesis
  proof (cases "compareProducts svc (slice 0 5 cands) (text_q query)")
    case (Inl err)
    with a assms show ?thesis by (simp add: generateRecommendations_nonempty)
  next
    case (Inr c)
    with a assms selectAndAssemble_nonempty[OF assms(2), of "slice 0 5 cands" a c]
    show ?thesis by (auto simp: generateRecommendations_nonempty)
  qed
qed

lemma selectAndAssemble_Inr:
  assumes "selectAndAssemble cands tops a c = Inr r"
  shows "products r = tops \<and> alternatives r = Some (slice 5 10 cands)
       \<and> reduce bestValueStep cands = Inr (bestValue r)
       \<and> reduce topRatedStep cands = Inr (topRated r)
       \<and> analysis r = a \<and> reasoning r = c"
  using assms by (auto simp: selectAndAssemble_def split: sum.splits)

lemma generateRecommendations_success:
  assumes "generateRecommendations svc db query = (calls, Inr r)"
  defines "cands \<equiv> snd (retrieveRelevantProducts svc db query)"
  shows "cands \<noteq> []"
    and "calls = [CallExtract (text_q query), CallGenerate (text_q query) (ragContextOf query cands),
                 CallCompare (slice 0 5 cands) (text_q query)]"
    and "products r = slice 0 5 cands"
    and "alternatives r = Some (slice 5 10 cands)"
    and "reduce bestValueStep cands = Inr (bestValue r)"
    and "reduce topRatedStep cands = Inr (topRated r)"
proof -
  show ne: "cands \<noteq> []"
  proof
    assume "cands = []"
    then have "generateRecommendations svc db query
           = ([CallExtract (text_q query)], Inl (Error noProductsMessage))"
      unfolding cands_def by (rule generateRecommendations_empty)
    with assms(1) show False by simp
  qed
  have g: "generateRecommendations svc db query =
     (case generateRecommendations_svc svc (text_q query) (ragContextOf query cands) of
        Inl err \<Rightarrow>
          ([CallExtract (text_q query), CallGenerate (text_q query) (ragContextOf query cands)],
           Inl err)
      | Inr a \<Rightarrow>
          (case compareProducts svc (slice 0 5 cands) (text_q query) of
             Inl err \<Rightarrow>
               ([CallExtract (text_q query), CallGenerate (text_q query) (ragContextOf query cands),
                 CallCompare (slice 0 5 cands) (text_q query)], Inl err)
           | Inr c \<Rightarrow>
               ([CallExtract (text_q query), CallGenerate (text_q query) (ragContextOf query cands),
                 CallCompare (slice 0 5 cands) (text_q query)],
                selectAndAssemble cands (slice 0 5 cands) a c)))"
    using generateRecommendations_nonempty[OF _ ne, of svc db query] by (simp add: cands_def)
  from assms(1) g obtain a c where
    sel: "selectAndAssemble cands (slice 0 5 cands) a c = Inr r"
    and calls: "calls = [CallExtract (text_q query),
                 CallGenerate (text_q query) (ragContextOf query cands),
                 CallCompare (slice 0 5 cands) (text_q query)]"
    by (auto split: sum.splits)
  show "calls = [CallExtract (text_q query), CallGenerate (text_q query) (ragContextOf query cands),
                 CallCompare (slice 0 5 cands) (text_q query)]" by (rule calls)
  from selectAndAssemble_Inr[OF sel]
  show "products r = slice 0 5 cands" "alternatives r = Some (slice 5 10 cands)"
    "reduce bestValueStep cands = Inr (bestValue r)"
    "reduce topRatedStep cands = Inr (topRated r)"
    by simp_all
qed

lemma generateRecommendations_calls:
  defines "cands \<equiv> \<lambda>svc db query. snd (retrieveRelevantProducts svc db query)"
  shows "set (fst (generateRecommendations svc db query))
     \<subseteq> {CallExtract (text_q query),
         CallGenerate (text_q query) (ragContextOf query (cands svc db query)),
         CallCompare (slice 0 5 (cands svc db query)) (text_q query)}"
proof (cases "cands svc db query = []")
  case True
  then show ?thesis
    using generateRecommendations_empty[of svc db query] by (simp add: cands_def)
next
  case False
  then show ?thesis
    using generateRecommendations_nonempty[OF _ False, of svc db query]
    by (auto simp: cands_def split: sum.splits)
qed

lemma reduce_in_set: "reduce f xs = Inr r \<Longrightarrow> (\<And>a b. f a b = a \<or> f a b = b) \<Longrightarrow> r \<in> set xs"
proof (induction xs arbitrary: r rule: rev_induct)
  case Nil then show ?case by (simp add: reduce_def)
next
  case (snoc y ys)
  show ?case
  proof (cases "ys = []")
    case True with snoc.prems show ?thesis by (simp add: reduce_def)
  next
    case False
    then obtain r' where r': "reduce f ys = Inr r'" by (cases ys) (auto simp: reduce_def)
    then have "r' \<in> set ys" using snoc by blast
    moreover have "r = f r' y" using reduce_snoc[OF False r', of y] snoc.prems(1) by simp
    ultimately show ?thesis using snoc.prems(2)[of r' y] by auto
  qed
qed

text \<open>
  Claim C8. Whenever \<open>generateRecommendations\<close> succeeds, \<open>products\<close> is the first five
  candidates and \<open>alternatives\<close> the rest, so that their concatenation is the full
  retrieval result; \<open>bestValue\<close> and \<open>topRated\<close> are members of it, and each is the
  selection made over that full list.
\<close>

theorem selections_are_candidates:
  assumes "generateRecommendations svc db query = (calls, Inr r)"
  shows "\<exists>alts. alternatives r = Some alts
           \<and> products r = take 5 (snd (retrieveRelevantProducts svc db query))
           \<and> alts = drop 5 (snd (retrieveRelevantProducts svc db query))
           \<and> products r @ alts = snd (retrieveRelevantProducts svc db query)
           \<and> bestValue r \<in> set (products r @ alts)
           \<and> topRated r \<in> set (products r @ alts)
           \<and> reduce bestValueStep (products r @ alts) = Inr (bestValue r)
           \<and> reduce topRatedStep (products r @ alts) = Inr (topRated r)"
proof -
  let ?c = "snd (retrieveRelevantProducts svc db query)"
  note s = generateRecommendations_success[OF assms]
  have len: "length ?c \<le> 10" by (rule length_retrieveRelevantProducts)
  have p: "products r = take 5 ?c" using s(3) by (simp add: slice_def)
  have a: "slice 5 10 ?c = drop 5 ?c" using len by (simp add: slice_def)
  have bv: "bestValue r \<in> set ?c"
    using reduce_in_set[OF s(5)] by (auto simp: bestValueStep_def)
  have tr: "topRated r \<in> set ?c"
    using reduce_in_set[OF s(6)] by (auto simp: topRatedStep_def)
  have alt: "alternatives r = Some (drop 5 ?c)" using s(4) a by simp
  have app: "products r @ drop 5 ?c = ?c" by (simp add: p)
  show ?thesis
  proof (intro exI[of _ "drop 5 ?c"] conjI)
    show "alternatives r = Some (drop 5 ?c)" by (rule alt)
    show "products r = take 5 ?c" by (rule p)
    show "drop 5 ?c = drop 5 ?c" by (rule refl)
    show "products r @ drop 5 ?c = ?c" by (rule app)
    show "bestValue r \<in> set (products r @ drop 5 ?c)" unfolding app by (rule bv)
    show "topRated r \<in> set (products r @ drop 5 ?c)" unfolding app by (rule tr)
    show "reduce bestValueStep (products r @ drop 5 ?c) = Inr (bestValue r)"
      unfolding app by (rule s(5))
    show "reduce topRatedStep (products r @ drop 5 ?c) = Inr (topRated r)"
      unfolding app by (rule s(6))
  qed
qed

text \<open>
  Claim C4. When retrieval produces zero candidates, \<open>generateRecommendations\<close> fails with
  the error whose message tells the user that no products matched, and the only call made
  to the service is the entity extraction: neither the generation call nor the comparison
  call is made.
\<close>

theorem no_candidates_is_no_match:
  assumes "snd (retrieveRelevantProducts svc db query) = []"
  shows "snd (generateRecommendations svc db query)
           = Inl (Error ''No products found matching your criteria. Please try a different search.'')
       \<and> fst (generateRecommendations svc db query) = [CallExtract (text_q query)]
       \<and> (\<forall>t ctx. CallGenerate t ctx \<notin> set (fst (generateRecommendations svc db query)))
       \<and> (\<forall>ps t. CallCompare ps t \<notin> set (fst (generateRecommendations svc db query)))"
  using generateRecommendations_empty[OF assms] by (simp add: noProductsMessage_def)

text \<open>
  Claim C3, as the code has it. When the intent extraction fails, the retriever catches the
  error and returns the empty list without searching the catalog; the extraction error is
  not propagated, and \<open>generateRecommendations\<close> then fails with the no-products error,
  having made no call beyond the extraction.
\<close>

theorem extraction_failure_yields_no_match:
  assumes "extractQueryEntities svc (text_q query) = Inl err"
  shows "retrieveRelevantProducts svc db query = ([CallExtract (text_q query)], [])
       \<and> generateRecommendations svc db query
           = ([CallExtract (text_q query)], Inl (Error noProductsMessage))"
proof -
  have r: "retrieveRelevantProducts svc db query = ([CallExtract (text_q query)], [])"
    using assms by (rule retrieveRelevantProducts_Inl)
  then have "snd (retrieveRelevantProducts svc db query) = []" by simp
  then show ?thesis using r generateRecommendations_empty by blast
qed

text \<open>
  Claim C7. The retrieval result has at most 10 products. Every generation call made by
  \<open>generateRecommendations\<close> carries the full retrieval result (at most 10 products) as
  its product data, and every comparison call receives its first five products (at most
  5). On success exactly these two calls follow the extraction.
\<close>

theorem context_sizes_bounded:
  "length (snd (retrieveRelevantProducts svc db query)) \<le> 10
   \<and> (\<forall>t ctx. CallGenerate t ctx \<in> set (fst (generateRecommendations svc db query)) \<longrightarrow>
          productData ctx = snd (retrieveRelevantProducts svc db query)
          \<and> length (productData ctx) \<le> 10)
   \<and> (\<forall>ps t. CallCompare ps t \<in> set (fst (generateRecommendations svc db query)) \<longrightarrow>
          ps = take 5 (snd (retrieveRelevantProducts svc db query)) \<and> length ps \<le> 5)
   \<and> (\<forall>r. snd (generateRecommendations svc db query) = Inr r \<longrightarrow>
          fst (generateRecommendations svc db query)
            = [CallExtract (text_q query),
               CallGenerate (text_q query)
                 (ragContextOf query (snd (retrieveRelevantProducts svc db query))),
               CallCompare (take 5 (snd (retrieveRelevantProducts svc db query))) (text_q query)])"
proof (intro conjI allI impI)
  show "length (snd (retrieveRelevantProducts svc db query)) \<le> 10"
    by (rule length_retrieveRelevantProducts)
next
  fix t ctx
  assume "CallGenerate t ctx \<in> set (fst (generateRecommendations svc db query))"
  then have "ctx = ragContextOf query (snd (retrieveRelevantProducts svc db query))"
    using generateRecommendations_calls[of svc db query] by auto
  then show "productData ctx = snd (retrieveRelevantProducts svc db query)"
    and "length (productData ctx) \<le> 10"
    using length_retrieveRelevantProducts[of svc db query] by (simp_all add: ragContextOf_def)
next
  fix ps t
  assume "CallCompare ps t \<in> set (fst (generateRecommendations svc db query))"
  then have "ps = slice 0 5 (snd (retrieveRelevantProducts svc db query))"
    using generateRecommendations_calls[of svc db query] by auto
  then show "ps = take 5 (snd (retrieveRelevantProducts svc db query))" and "length ps \<le> 5"
    by (simp_all add: slice_def)
next
  fix r assume "snd (generateRecommendations svc db query) = Inr r"
  then have "generateRecommendations svc db query
               = (fst (generateRecommendations svc db query), Inr r)"
    by (metis prod.collapse)
  from generateRecommendations_success(2)[OF this]
  show "fst (generateRecommendations svc db query)
            = [CallExtract (text_q query),
               CallGenerate (text_q query)
                 (ragContextOf query (snd (retrieveRelevantProducts svc db query))),
               CallCompare (take 5 (snd (retrieveRelevantProducts svc db query))) (text_q query)]"
    by (simp add: slice_def)
qed

text \<open>With eight candidates the selections lie beyond the first five: \<open>topRated\<close> is the
  sixth candidate and \<open>bestValue\<close> the seventh, both among the alternatives.\<close>

theorem selections_are_candidates_witness:
  "generateRecommendations (exampleService (Inr (exampleIntent ''laptops'')))
      (exampleCatalog exampleEight) (exampleQuery None)
     = ([CallExtract ''best laptops'',
         CallGenerate ''best laptops'' (ragContextOf (exampleQuery None) exampleEight),
         CallCompare (take 5 exampleEight) ''best laptops''],
        Inr \<lparr> products = take 5 exampleEight, analysis = ''analysis'',
              reasoning = ''comparison'', alternatives = Some (drop 5 exampleEight),
              bestValue = exampleProduct ''g'' 1 4, topRated = exampleProduct ''f'' 100 5 \<rparr>)
   \<and> snd (retrieveRelevantProducts (exampleService (Inr (exampleIntent ''laptops'')))
            (exampleCatalog exampleEight) (exampleQuery None)) = exampleEight
   \<and> exampleProduct ''g'' 1 4 \<notin> set (take 5 exampleEight)
   \<and> exampleProduct ''f'' 100 5 \<notin> set (take 5 exampleEight)
   \<and> exampleProduct ''g'' 1 4 \<in> set (drop 5 exampleEight)
   \<and> exampleProduct ''f'' 100 5 \<in> set (drop 5 exampleEight)
   \<and> exampleProduct ''g'' 1 4 \<in> set (take 5 exampleEight @ drop 5 exampleEight)
   \<and> exampleProduct ''f'' 100 5 \<in> set (take 5 exampleEight @ drop 5 exampleEight)
   \<and> reduce bestValueStep (take 5 exampleEight @ drop 5 exampleEight)
       = Inr (exampleProduct ''g'' 1 4)
   \<and> reduce topRatedStep (take 5 exampleEight @ drop 5 exampleEight)
       = Inr (exampleProduct ''f'' 100 5)"
proof -
  define r where "r = \<lparr> products = take 5 exampleEight, analysis = ''analysis'',
              reasoning = ''comparison'', alternatives = Some (drop 5 exampleEight),
              bestValue = exampleProduct ''g'' 1 4, topRated = exampleProduct ''f'' 100 5 \<rparr>"
  have h: "generateRecommendations (exampleService (Inr (exampleIntent ''laptops'')))
      (exampleCatalog exampleEight) (exampleQuery None)
     = ([CallExtract ''best laptops'',
         CallGenerate ''best laptops'' (ragContextOf (exampleQuery None) exampleEight),
         CallCompare (take 5 exampleEight) ''best laptops''], Inr r)"
    unfolding r_def by code_simp
  have c: "snd (retrieveRelevantProducts (exampleService (Inr (exampleIntent ''laptops'')))
            (exampleCatalog exampleEight) (exampleQuery None)) = exampleEight"
    by code_simp
  have n1: "exampleProduct ''g'' 1 4 \<notin> set (take 5 exampleEight)" by code_simp
  have n2: "exampleProduct ''f'' 100 5 \<notin> set (take 5 exampleEight)" by code_simp
  have m1: "exampleProduct ''g'' 1 4 \<in> set (drop 5 exampleEight)" by code_simp
  have m2: "exampleProduct ''f'' 100 5 \<in> set (drop 5 exampleEight)" by code_simp
  have sel: "products r = take 5 exampleEight" "alternatives r = Some (drop 5 exampleEight)"
    "bestValue r = exampleProduct ''g'' 1 4" "topRated r = exampleProduct ''f'' 100 5"
    by (simp_all add: r_def)
  from selections_are_candidates[OF h]
  obtain alts where a: "alternatives r = Some alts"
    and b: "bestValue r \<in> set (products r @ alts)"
    and t: "topRated r \<in> set (products r @ alts)"
    and rb: "reduce bestValueStep (products r @ alts) = Inr (bestValue r)"
    and rt: "reduce topRatedStep (products r @ alts) = Inr (topRated r)"
    by blast
  from a sel(2) have alts: "alts = drop 5 exampleEight" by simp
  note b' = b[unfolded alts sel] and t' = t[unfolded alts sel]
    and rb' = rb[unfolded alts sel] and rt' = rt[unfolded alts sel]
  show ?thesis
    unfolding r_def[symmetric]
    by (intro conjI) (rule h, rule c, rule n1, rule n2, rule m1, rule m2,
        rule b', rule t', rule rb', rule rt')
qed

theorem no_candidates_is_no_match_witness:
  "snd (retrieveRelevantProducts (exampleService (Inr (exampleIntent ''laptops'')))
          (exampleCatalog []) (exampleQuery None)) = []
   \<and> snd (generateRecommendations (exampleService (Inr (exampleIntent ''laptops'')))
            (exampleCatalog []) (exampleQuery None))
       = Inl (Error ''No products found matching your criteria. Please try a different search.'')
   \<and> fst (generateRecommendations (exampleService (Inr (exampleIntent ''laptops'')))
            (exampleCatalog []) (exampleQuery None))
       = [CallExtract (text_q (exampleQuery None))]"
proof -
  have h: "snd (retrieveRelevantProducts (exampleService (Inr (exampleIntent ''laptops'')))
          (exampleCatalog []) (exampleQuery None)) = []"
    by code_simp
  show ?thesis
    using no_candidates_is_no_match[OF h] h by blast
qed

theorem extraction_failure_yields_no_match_witness:
  "extractQueryEntities (exampleService (Inl (Error ''Unexpected token''))) (text_q (exampleQuery None))
     = Inl (Error ''Unexpected token'')
   \<and> retrieveRelevantProducts (exampleService (Inl (Error ''Unexpected token'')))
         (exampleCatalog [exampleProduct ''a'' 10 5]) (exampleQuery None)
       = ([CallExtract (text_q (exampleQuery None))], [])
   \<and> generateRecommendations (exampleService (Inl (Error ''Unexpected token'')))
         (exampleCatalog [exampleProduct ''a'' 10 5]) (exampleQuery None)
       = ([CallExtract (text_q (exampleQuery None))], Inl (Error noProductsMessage))"
proof -
  have h: "extractQueryEntities (exampleService (Inl (Error ''Unexpected token'')))
             (text_q (exampleQuery None)) = Inl (Error ''Unexpected token'')"
    by (simp add: exampleService_def)
  show ?thesis
    using extraction_failure_yields_no_match[OF h] h by blast
qed

text \<open>
  Claim C3 as stated fails: with a failing extraction and a catalog of one product,
  retrieval over the empty intent would return that product, but the retriever returns
  nothing and the request fails with the no-products error.
\<close>

theorem extraction_failure_counterexample:
  "extractQueryEntities (exampleService (Inl (Error ''Unexpected token''))) (text_q (exampleQuery None))
     = Inl (Error ''Unexpected token'')
   \<and> retrieveWith (exampleCatalog [exampleProduct ''a'' 10 5]) (exampleQuery None) emptyIntent
       = [exampleProduct ''a'' 10 5]
   \<and> snd (retrieveRelevantProducts (exampleService (Inl (Error ''Unexpected token'')))
            (exampleCatalog [exampleProduct ''a'' 10 5]) (exampleQuery None)) = []
   \<and> snd (generateRecommendations (exampleService (Inl (Error ''Unexpected token'')))
            (exampleCatalog [exampleProduct ''a'' 10 5]) (exampleQuery None))
       = Inl (Error ''No products found matching your criteria. Please try a different search.'')"
  by code_simp

theorem context_sizes_bounded_witness:
  "length (exampleProducts 12) = 12
   \<and> CallGenerate (text_q (exampleQuery None))
        (ragContextOf (exampleQuery None)
           (snd (retrieveRelevantProducts (exampleService (Inr (exampleIntent ''laptops'')))
                   (exampleCatalog (exampleProducts 12)) (exampleQuery None))))
       \<in> set (fst (generateRecommendations (exampleService (Inr (exampleIntent ''laptops'')))
                     (exampleCatalog (exampleProducts 12)) (exampleQuery None)))
   \<and> length (snd (retrieveRelevantProducts (exampleService (Inr (exampleIntent ''laptops'')))
                   (exampleCatalog (exampleProducts 12)) (exampleQuery None))) \<le> 10
   \<and> CallCompare (take 5 (exampleProducts 12)) (text_q (exampleQuery None))
       \<in> set (fst (generateRecommendations (exampleService (Inr (exampleIntent ''laptops'')))
                     (exampleCatalog (exampleProducts 12)) (exampleQuery None)))
   \<and> take 5 (exampleProducts 12)
       = take 5 (snd (retrieveRelevantProducts (exampleService (Inr (exampleIntent ''laptops'')))
                   (exampleCatalog (exampleProducts 12)) (exampleQuery None)))
   \<and> length (take 5 (exampleProducts 12)) \<le> 5"
proof -
  let ?S = "exampleService (Inr (exampleIntent ''laptops''))"
  let ?D = "exampleCatalog (exampleProducts 12)"
  let ?Q = "exampleQuery None"
  have l: "length (exampleProducts 12) = 12" by (simp add: exampleProducts_def)
  have m1: "CallGenerate (text_q ?Q) (ragContextOf ?Q (snd (retrieveRelevantProducts ?S ?D ?Q)))
              \<in> set (fst (generateRecommendations ?S ?D ?Q))"
    by code_simp
  have m2: "CallCompare (take 5 (exampleProducts 12)) (text_q ?Q)
              \<in> set (fst (generateRecommendations ?S ?D ?Q))"
    by code_simp
  show ?thesis
    using context_sizes_bounded[of ?S ?D ?Q] l m1 m2 by blast
qed

section \<open>Translation\<close>

lemma codeOf_no_colon: "CHR '':'' \<notin> set (codeOf lang)"
proof (cases lang)
  case (Native l) then show ?thesis by (cases l) simp_all
qed simp_all

lemma codeOf_inj: "codeOf a = codeOf b \<Longrightarrow> a = b"
proof (cases a)
  case (Native l)
  assume e: "codeOf a = codeOf b"
  show ?thesis
  proof (cases b)
    case (Native l')
    with \<open>a = Native l\<close> e show ?thesis by (cases l; cases l') simp_all
  next
    case Bengali with \<open>a = Native l\<close> e show ?thesis by (cases l) simp_all
  next
    case Punjabi with \<open>a = Native l\<close> e show ?thesis by (cases l) simp_all
  qed
next
  case Bengali
  assume e: "codeOf a = codeOf b"
  show ?thesis
  proof (cases b)
    case (Native l') with Bengali e show ?thesis by (cases l') simp_all
  qed (use Bengali e in simp_all)
next
  case Punjabi
  assume e: "codeOf a = codeOf b"
  show ?thesis
  proof (cases b)
    case (Native l') with Punjabi e show ?thesis by (cases l') simp_all
  qed (use Punjabi e in simp_all)
qed

lemma separator_split:
  assumes "a @ c # x = b @ c # y" "c \<notin> set a" "c \<notin> set b"
  shows "a = b \<and> x = y"
  using assms
proof (induction a arbitrary: b)
  case Nil
  then show ?case by (cases b) auto
next
  case (Cons h a)
  then show ?case by (cases b) auto
qed

lemma cacheKeyOf_inj:
  assumes "cacheKeyOf tx lang = cacheKeyOf tx' lang'"
  shows "lang = lang' \<and> tx = tx'"
proof -
  from assms have "rev (tx @ CHR '':'' # codeOf lang) = rev (tx' @ CHR '':'' # codeOf lang')"
    by (simp add: cacheKeyOf_def)
  then have "rev (codeOf lang) @ CHR '':'' # rev tx = rev (codeOf lang') @ CHR '':'' # rev tx'"
    by simp
  moreover have "CHR '':'' \<notin> set (rev (codeOf lang))" "CHR '':'' \<notin> set (rev (codeOf lang'))"
    using codeOf_no_colon by simp_all
  ultimately have "rev (codeOf lang) = rev (codeOf lang') \<and> rev tx = rev tx'"
    by (rule separator_split)
  then show ?thesis using codeOf_inj by simp
qed

lemma translate_hit:
  assumes "useCache \<and> cache (cacheKeyOf tx lang) \<noteq> None"
  shows "translateToIndianLanguage svc now cache tx lang useCache
           = (([], cache), Inr (translatedText (the (cache (cacheKeyOf tx lang)))))"
  using assms by (simp add: translateToIndianLanguage_def Let_def)

lemma translate_miss_native:
  assumes "\<not> (useCache \<and> cache (cacheKeyOf tx (Native l)) \<noteq> None)"
  shows "translateToIndianLanguage svc now cache tx (Native l) useCache =
     (case translateForIndianLanguage svc tx l of
        Inl err \<Rightarrow> (([CallTranslate tx l], cache), Inl err)
      | Inr t \<Rightarrow>
          (([CallTranslate tx l],
            cache(cacheKeyOf tx (Native l) \<mapsto>
              \<lparr> language_lc = Native l, originalText = tx, translatedText = t,
                translatedAt = now \<rparr>)),
           Inr t))"
  using assms by (auto simp: translateToIndianLanguage_def Let_def)

lemma translate_miss_fallback:
  assumes "\<not> (useCache \<and> cache (cacheKeyOf tx lang) \<noteq> None)" "lang = Bengali \<or> lang = Punjabi"
  shows "translateToIndianLanguage svc now cache tx lang useCache =
     (case translateForIndianLanguage svc tx Hindi of
        Inl err \<Rightarrow> (([CallTranslate tx Hindi], cache), Inl err)
      | Inr t \<Rightarrow>
          (([CallTranslate tx Hindi],
            cache(cacheKeyOf tx lang \<mapsto>
              \<lparr> language_lc = lang, originalText = tx,
                translatedText = fallbackMarker @ t, translatedAt = now \<rparr>)),
           Inr (fallbackMarker @ t)))"
  using assms by (auto simp: translateToIndianLanguage_def Let_def)

lemma fallbackMarked_step:
  assumes inv: "fallbackMarked cache"
    and step: "translateToIndianLanguage svc now cache tx lang useCache = ((calls, cache'), res)"
  shows "fallbackMarked cache'"
proof (cases "useCache \<and> cache (cacheKeyOf tx lang) \<noteq> None")
  case True
  with step have "cache' = cache" by (simp add: translate_hit)
  with inv show ?thesis by simp
next
  case False
  show ?thesis
  proof (cases lang)
    case (Native l)
    show ?thesis
    proof (cases "translateForIndianLanguage svc tx l")
      case (Inl err)
      with step False Native have "cache' = cache" by (simp add: translate_miss_native)
      with inv show ?thesis by simp
    next
      case (Inr t)
      with step False Native have c': "cache' = cache(cacheKeyOf tx (Native l) \<mapsto>
              \<lparr> language_lc = Native l, originalText = tx, translatedText = t,
                translatedAt = now \<rparr>)"
        by (simp add: translate_miss_native)
      show ?thesis
        unfolding fallbackMarked_def
      proof (intro allI impI)
        fix tx' lang' lc
        assume lk: "cache' (cacheKeyOf tx' lang') = Some lc" and fb: "lang' = Bengali \<or> lang' = Punjabi"
        have "cacheKeyOf tx' lang' \<noteq> cacheKeyOf tx (Native l)"
          using cacheKeyOf_inj[of "tx'" "lang'" tx "Native l"] fb by auto
        with lk c' have "cache (cacheKeyOf tx' lang') = Some lc" by simp
        with inv fb show "prefix fallbackMarker (translatedText lc)"
          unfolding fallbackMarked_def by blast
      qed
    qed
  next
    case Bengali
    then have fbl: "lang = Bengali \<or> lang = Punjabi" by simp
    show ?thesis
    proof (cases "translateForIndianLanguage svc tx Hindi")
      case (Inl err)
      with step False fbl have "cache' = cache" by (simp add: translate_miss_fallback)
      with inv show ?thesis by simp
    next
      case (Inr t)
      with step False fbl have c': "cache' = cache(cacheKeyOf tx lang \<mapsto>
              \<lparr> language_lc = lang, originalText = tx,
                translatedText = fallbackMarker @ t, translatedAt = now \<rparr>)"
        by (simp add: translate_miss_fallback)
      show ?thesis
        unfolding fallbackMarked_def
      proof (intro allI impI)
        fix tx' lang' lc
        assume lk: "cache' (cacheKeyOf tx' lang') = Some lc" and fb: "lang' = Bengali \<or> lang' = Punjabi"
        show "prefix fallbackMarker (translatedText lc)"
        proof (cases "cacheKeyOf tx' lang' = cacheKeyOf tx lang")
          case True
          with lk c' show ?thesis by auto
        next
          case False
          with lk c' have "cache (cacheKeyOf tx' lang') = Some lc" by simp
          with inv fb show ?thesis unfolding fallbackMarked_def by blast
        qed
      qed
    qed
  next
    case Punjabi
    then have fbl: "lang = Bengali \<or> lang = Punjabi" by simp
    show ?thesis
    proof (cases "translateForIndianLanguage svc tx Hindi")
      case (Inl err)
      with step False fbl have "cache' = cache" by (simp add: translate_miss_fallback)
      with inv show ?thesis by simp
    next
      case (Inr t)
      with step False fbl have c': "cache' = cache(cacheKeyOf tx lang \<mapsto>
              \<lparr> language_lc = lang, originalText = tx,
                translatedText = fallbackMarker @ t, translatedAt = now \<rparr>)"
        by (simp add: translate_miss_fallback)
      show ?thesis
        unfolding fallbackMarked_def
      proof (intro allI impI)
        fix tx' lang' lc
        assume lk: "cache' (cacheKeyOf tx' lang') = Some lc" and fb: "lang' = Bengali \<or> lang' = Punjabi"
        show "prefix fallbackMarker (translatedText lc)"
        proof (cases "cacheKeyOf tx' lang' = cacheKeyOf tx lang")
          case True
          with lk c' show ?thesis by auto
        next
          case False
          with lk c' have "cache (cacheKeyOf tx' lang') = Some lc" by simp
          with inv fb show ?thesis unfolding fallbackMarked_def by blast
        qed
      qed
    qed
  qed
qed

lemma reachable_fallbackMarked: "reachableCache cache \<Longrightarrow> fallbackMarked cache"
proof (induction rule: reachableCache.induct)
  case initial
  show ?case by (simp add: fallbackMarked_def)
next
  case (translated cache svc now tx lang useCache calls cache' res)
  then show ?case using fallbackMarked_step by blast
qed

lemma translate_miss_fallback_out:
  assumes "\<not> (useCache \<and> cache (cacheKeyOf tx lang) \<noteq> None)" "lang = Bengali \<or> lang = Punjabi"
  shows "fst (fst (translateToIndianLanguage svc now cache tx lang useCache))
           = [CallTranslate tx Hindi]"
    and "snd (translateToIndianLanguage svc now cache tx lang useCache)
           = map_sum id (\<lambda>t. fallbackMarker @ t) (translateForIndianLanguage svc tx Hindi)"
  using assms
  by (cases "translateForIndianLanguage svc tx Hindi"; simp add: translate_miss_fallback)+

lemma translate_miss_native_out:
  assumes "\<not> (useCache \<and> cache (cacheKeyOf tx (Native l)) \<noteq> None)"
  shows "fst (fst (translateToIndianLanguage svc now cache tx (Native l) useCache))
           = [CallTranslate tx l]"
    and "snd (translateToIndianLanguage svc now cache tx (Native l) useCache)
           = translateForIndianLanguage svc tx l"
  using assms
  by (cases "translateForIndianLanguage svc tx l"; simp add: translate_miss_native)+

lemma translate_cache_after:
  assumes "translateToIndianLanguage svc now cache tx lang useCache = ((calls, cache'), res)"
  shows "useCache \<and> cache (cacheKeyOf tx lang) \<noteq> None \<Longrightarrow> cache' = cache"
    and "res = Inl e \<Longrightarrow> cache' = cache"
    and "\<not> (useCache \<and> cache (cacheKeyOf tx lang) \<noteq> None) \<Longrightarrow> res = Inr t \<Longrightarrow>
         cache' = cache(cacheKeyOf tx lang \<mapsto>
           \<lparr> language_lc = lang, originalText = tx, translatedText = t, translatedAt = now \<rparr>)"
proof -
  show "cache' = cache" if "useCache \<and> cache (cacheKeyOf tx lang) \<noteq> None"
    using that assms by (simp add: translate_hit)
  show "cache' = cache" if "res = Inl e"
    using that assms
    by (cases lang; cases "useCache \<and> cache (cacheKeyOf tx lang) \<noteq> None")
       (auto simp: translateToIndianLanguage_def Let_def split: sum.splits)
  show "cache' = cache(cacheKeyOf tx lang \<mapsto>
           \<lparr> language_lc = lang, originalText = tx, translatedText = t, translatedAt = now \<rparr>)"
    if "\<not> (useCache \<and> cache (cacheKeyOf tx lang) \<noteq> None)" "res = Inr t"
    using that assms
    by (cases lang) (auto simp: translateToIndianLanguage_def Let_def split: sum.splits)
qed

lemma nativeUnmarked_step:
  assumes inv: "nativeUnmarked cache" and free: "markerFree svc"
    and step: "translateToIndianLanguage svc now cache tx lang useCache = ((calls, cache'), res)"
  shows "nativeUnmarked cache'"
proof (cases "useCache \<and> cache (cacheKeyOf tx lang) \<noteq> None")
  case True
  with translate_cache_after(1)[OF step] inv show ?thesis by simp
next
  case False
  show ?thesis
  proof (cases res)
    case (Inl e)
    with translate_cache_after(2)[OF step] inv show ?thesis by simp
  next
    case (Inr t)
    note c' = translate_cache_after(3)[OF step False Inr]
    show ?thesis
      unfolding nativeUnmarked_def
    proof (intro allI impI)
      fix tx' l lc
      assume lk: "cache' (cacheKeyOf tx' (Native l)) = Some lc"
      show "\<not> prefix fallbackMarker (translatedText lc)"
      proof (cases "cacheKeyOf tx' (Native l) = cacheKeyOf tx lang")
        case same: True
        then have lang: "lang = Native l" and tx: "tx' = tx"
          using cacheKeyOf_inj[of tx' "Native l" tx lang] by simp_all
        from lk c' same have lc: "translatedText lc = t" by auto
        from translate_miss_native_out(2)[of useCache cache tx l svc now] False lang step Inr
        have "translateForIndianLanguage svc tx l = Inr t" by simp
        with free have "\<not> prefix fallbackMarker t" unfolding markerFree_def by blast
        with lc show ?thesis by simp
      next
        case False
        with lk c' have "cache (cacheKeyOf tx' (Native l)) = Some lc" by simp
        with inv show ?thesis unfolding nativeUnmarked_def by blast
      qed
    qed
  qed
qed

lemma reachableMarkerFree_nativeUnmarked:
  "reachableMarkerFree cache \<Longrightarrow> nativeUnmarked cache"
proof (induction rule: reachableMarkerFree.induct)
  case initial_free
  show ?case by (simp add: nativeUnmarked_def)
next
  case (translated_free cache svc now tx lang useCache calls cache' res)
  then show ?case using nativeUnmarked_step by blast
qed

lemma native_result_unmarked:
  assumes inv: "nativeUnmarked cache" and free: "markerFree svc"
    and step: "translateToIndianLanguage svc now cache tx (Native l) useCache
                 = ((calls, cache'), res)"
    and r: "res = Inr t"
  shows "\<not> prefix fallbackMarker t"
proof (cases "useCache \<and> cache (cacheKeyOf tx (Native l)) \<noteq> None")
  case True
  then obtain lc where lc: "cache (cacheKeyOf tx (Native l)) = Some lc" by blast
  with True step r have "t = translatedText lc" by (simp add: translate_hit)
  with inv lc show ?thesis unfolding nativeUnmarked_def by blast
next
  case False
  from translate_miss_native_out(2)[of useCache cache tx l svc now] False step r
  have "translateForIndianLanguage svc tx l = Inr t" by simp
  with free show ?thesis unfolding markerFree_def by blast
qed


text \<open>
  Claim C9. For every reachable cache and every request: when the language is bengali or
  punjabi, every call made to the service is a translation to Hindi, every returned text
  starts with the fallback marker, and unless the cache serves the request the text is the
  marker followed by the Hindi translation; when the language is natively supported, every
  call is a translation to that language and unless the cache serves the request the
  result is the service's translation itself, with nothing put in front. A request served
  by the cache makes no call and returns the cached text. The text stored in the cache is
  the text returned, under the key of the request; a cache hit or a failure leaves the
  cache as it was; the cache afterwards is reachable again. As long as the translations of
  the service itself never start with the marker, no text returned for a natively supported
  language starts with it, whether translated now or served from the cache.
\<close>

theorem fallback_translation_is_marked:
  assumes "reachableCache cache"
    and "translateToIndianLanguage svc now cache tx lang useCache = ((calls, cache'), res)"
  shows "(lang = Bengali \<or> lang = Punjabi \<longrightarrow>
            (\<forall>c\<in>set calls. c = CallTranslate tx Hindi)
          \<and> (\<forall>t. res = Inr t \<longrightarrow> prefix fallbackMarker t)
          \<and> (\<not> (useCache \<and> cache (cacheKeyOf tx lang) \<noteq> None) \<longrightarrow>
                calls = [CallTranslate tx Hindi]
              \<and> res = map_sum id (\<lambda>t. ''[Fallback via Hindi] '' @ t)
                        (translateForIndianLanguage svc tx Hindi)))
       \<and> (\<forall>l. lang = Native l \<longrightarrow>
            (\<forall>c\<in>set calls. c = CallTranslate tx l)
          \<and> (\<not> (useCache \<and> cache (cacheKeyOf tx lang) \<noteq> None) \<longrightarrow>
                calls = [CallTranslate tx l] \<and> res = translateForIndianLanguage svc tx l))
       \<and> (useCache \<and> cache (cacheKeyOf tx lang) \<noteq> None \<longrightarrow>
            calls = [] \<and> res = Inr (translatedText (the (cache (cacheKeyOf tx lang)))))
       \<and> (\<forall>t. \<not> (useCache \<and> cache (cacheKeyOf tx lang) \<noteq> None) \<longrightarrow> res = Inr t \<longrightarrow>
            cache' = cache(cacheKeyOf tx lang \<mapsto>
              \<lparr> language_lc = lang, originalText = tx, translatedText = t,
                translatedAt = now \<rparr>))
       \<and> ((useCache \<and> cache (cacheKeyOf tx lang) \<noteq> None) \<or> (\<exists>e. res = Inl e) \<longrightarrow>
            cache' = cache)
       \<and> reachableCache cache'
       \<and> (reachableMarkerFree cache \<longrightarrow> markerFree svc \<longrightarrow>
            reachableMarkerFree cache'
          \<and> (\<forall>l t. lang = Native l \<longrightarrow> res = Inr t \<longrightarrow> \<not> prefix fallbackMarker t))"
proof -
  have calls: "calls = fst (fst (translateToIndianLanguage svc now cache tx lang useCache))"
    and res: "res = snd (translateToIndianLanguage svc now cache tx lang useCache)"
    using assms(2) by simp_all
  have hit: "calls = [] \<and> res = Inr (translatedText (the (cache (cacheKeyOf tx lang))))"
    if "useCache \<and> cache (cacheKeyOf tx lang) \<noteq> None"
    using that calls res by (simp add: translate_hit)
  have fb_miss: "calls = [CallTranslate tx Hindi]
        \<and> res = map_sum id (\<lambda>t. fallbackMarker @ t) (translateForIndianLanguage svc tx Hindi)"
    if "lang = Bengali \<or> lang = Punjabi" "\<not> (useCache \<and> cache (cacheKeyOf tx lang) \<noteq> None)"
    using translate_miss_fallback_out[of useCache cache tx lang svc now] that calls res by simp
  have nat_miss: "calls = [CallTranslate tx l] \<and> res = translateForIndianLanguage svc tx l"
    if "lang = Native l" "\<not> (useCache \<and> cache (cacheKeyOf tx lang) \<noteq> None)" for l
    using translate_miss_native_out[of useCache cache tx l svc now] that calls res by simp
  have fb_marked: "prefix fallbackMarker t"
    if fb: "lang = Bengali \<or> lang = Punjabi" and r: "res = Inr t" for t
  proof (cases "useCache \<and> cache (cacheKeyOf tx lang) \<noteq> None")
    case True
    then obtain lc where lc: "cache (cacheKeyOf tx lang) = Some lc" by blast
    with hit[OF True] r have "t = translatedText lc" by simp
    moreover have "prefix fallbackMarker (translatedText lc)"
      using reachable_fallbackMarked[OF assms(1)] lc fb unfolding fallbackMarked_def by blast
    ultimately show ?thesis by simp
  next
    case False
    from fb_miss[OF fb False] r show ?thesis
      by (cases "translateForIndianLanguage svc tx Hindi") auto
  qed
  have fb_calls: "\<forall>c\<in>set calls. c = CallTranslate tx Hindi" if "lang = Bengali \<or> lang = Punjabi"
    using hit fb_miss[OF that] by (cases "useCache \<and> cache (cacheKeyOf tx lang) \<noteq> None") auto
  have nat_calls: "\<forall>c\<in>set calls. c = CallTranslate tx l" if "lang = Native l" for l
    using hit nat_miss[OF that] by (cases "useCache \<and> cache (cacheKeyOf tx lang) \<noteq> None") auto
  have part1: "(lang = Bengali \<or> lang = Punjabi \<longrightarrow>
            (\<forall>c\<in>set calls. c = CallTranslate tx Hindi)
          \<and> (\<forall>t. res = Inr t \<longrightarrow> prefix fallbackMarker t)
          \<and> (\<not> (useCache \<and> cache (cacheKeyOf tx lang) \<noteq> None) \<longrightarrow>
                calls = [CallTranslate tx Hindi]
              \<and> res = map_sum id (\<lambda>t. ''[Fallback via Hindi] '' @ t)
                        (translateForIndianLanguage svc tx Hindi)))
       \<and> (\<forall>l. lang = Native l \<longrightarrow>
            (\<forall>c\<in>set calls. c = CallTranslate tx l)
          \<and> (\<not> (useCache \<and> cache (cacheKeyOf tx lang) \<noteq> None) \<longrightarrow>
                calls = [CallTranslate tx l] \<and> res = translateForIndianLanguage svc tx l))
       \<and> (useCache \<and> cache (cacheKeyOf tx lang) \<noteq> None \<longrightarrow>
            calls = [] \<and> res = Inr (translatedText (the (cache (cacheKeyOf tx lang)))))"
    using hit fb_miss nat_miss fb_marked fb_calls nat_calls
    unfolding fallbackMarker_def by blast
  have stored: "\<forall>t. \<not> (useCache \<and> cache (cacheKeyOf tx lang) \<noteq> None) \<longrightarrow> res = Inr t \<longrightarrow>
            cache' = cache(cacheKeyOf tx lang \<mapsto>
              \<lparr> language_lc = lang, originalText = tx, translatedText = t,
                translatedAt = now \<rparr>)"
    using translate_cache_after(3)[OF assms(2)] by blast
  have kept: "(useCache \<and> cache (cacheKeyOf tx lang) \<noteq> None) \<or> (\<exists>e. res = Inl e) \<longrightarrow>
            cache' = cache"
    using translate_cache_after(1)[OF assms(2)] translate_cache_after(2)[OF assms(2)] by blast
  have reach: "reachableCache cache'"
    using reachableCache.translated[OF assms(1) assms(2)] .
  have free: "reachableMarkerFree cache \<longrightarrow> markerFree svc \<longrightarrow>
            reachableMarkerFree cache'
          \<and> (\<forall>l t. lang = Native l \<longrightarrow> res = Inr t \<longrightarrow> \<not> prefix fallbackMarker t)"
  proof (intro impI conjI allI)
    assume rf: "reachableMarkerFree cache" and mf: "markerFree svc"
    show "reachableMarkerFree cache'"
      using reachableMarkerFree.translated_free[OF rf mf assms(2)] .
    fix l t assume "lang = Native l" "res = Inr t"
    then show "\<not> prefix fallbackMarker t"
      using native_result_unmarked[OF reachableMarkerFree_nativeUnmarked[OF rf] mf, of now tx l
          useCache calls cache' res t] assms(2)
      by simp
  qed
  note p1 = part1[THEN conjunct1]
    and p2 = part1[THEN conjunct2, THEN conjunct1]
    and p3 = part1[THEN conjunct2, THEN conjunct2]
  show ?thesis
    by (intro conjI) (rule p1, rule p2, rule p3, rule stored, rule kept, rule reach, rule free)
qed



theorem fallback_translation_is_marked_witness:
  "reachableCache Map.empty
   \<and> translateToIndianLanguage (exampleService (Inr emptyIntent)) 0 Map.empty ''Best phone''
        Bengali True
       = (([CallTranslate ''Best phone'' Hindi],
           [cacheKeyOf ''Best phone'' Bengali \<mapsto>
              \<lparr> language_lc = Bengali, originalText = ''Best phone'',
                translatedText = ''[Fallback via Hindi] translated Best phone'',
                translatedAt = 0 \<rparr>]),
          Inr ''[Fallback via Hindi] translated Best phone'')
   \<and> prefix fallbackMarker ''[Fallback via Hindi] translated Best phone''
   \<and> translateToIndianLanguage (exampleService (Inr emptyIntent)) 0 Map.empty ''Best phone''
        (Native Tamil) True
       = (([CallTranslate ''Best phone'' Tamil],
           [cacheKeyOf ''Best phone'' (Native Tamil) \<mapsto>
              \<lparr> language_lc = Native Tamil, originalText = ''Best phone'',
                translatedText = ''translated Best phone'', translatedAt = 0 \<rparr>]),
          Inr ''translated Best phone'')
   \<and> Inr ''translated Best phone''
       = translateForIndianLanguage (exampleService (Inr emptyIntent)) ''Best phone'' Tamil
   \<and> reachableCache
         [cacheKeyOf ''Best phone'' Bengali \<mapsto>
              \<lparr> language_lc = Bengali, originalText = ''Best phone'',
                translatedText = ''[Fallback via Hindi] translated Best phone'',
                translatedAt = 0 \<rparr>]
   \<and> translateToIndianLanguage (exampleService (Inr emptyIntent)) 1
          [cacheKeyOf ''Best phone'' Bengali \<mapsto>
              \<lparr> language_lc = Bengali, originalText = ''Best phone'',
                translatedText = ''[Fallback via Hindi] translated Best phone'',
                translatedAt = 0 \<rparr>]
          ''Best phone'' Bengali True
       = (([],
           [cacheKeyOf ''Best phone'' Bengali \<mapsto>
              \<lparr> language_lc = Bengali, originalText = ''Best phone'',
                translatedText = ''[Fallback via Hindi] translated Best phone'',
                translatedAt = 0 \<rparr>]),
          Inr ''[Fallback via Hindi] translated Best phone'')
   \<and> reachableMarkerFree Map.empty
   \<and> markerFree (exampleService (Inr emptyIntent))
   \<and> reachableMarkerFree
         [cacheKeyOf ''Best phone'' (Native Tamil) \<mapsto>
              \<lparr> language_lc = Native Tamil, originalText = ''Best phone'',
                translatedText = ''translated Best phone'', translatedAt = 0 \<rparr>]
   \<and> translateToIndianLanguage (exampleService (Inr emptyIntent)) 1
          [cacheKeyOf ''Best phone'' (Native Tamil) \<mapsto>
              \<lparr> language_lc = Native Tamil, originalText = ''Best phone'',
                translatedText = ''translated Best phone'', translatedAt = 0 \<rparr>]
          ''Best phone'' (Native Tamil) True
       = (([],
           [cacheKeyOf ''Best phone'' (Native Tamil) \<mapsto>
              \<lparr> language_lc = Native Tamil, originalText = ''Best phone'',
                translatedText = ''translated Best phone'', translatedAt = 0 \<rparr>]),
          Inr ''translated Best phone'')
   \<and> \<not> prefix fallbackMarker ''translated Best phone''"
proof -
  have r: "reachableCache Map.empty" by (rule reachableCache.initial)
  have b: "translateToIndianLanguage (exampleService (Inr emptyIntent)) 0 Map.empty ''Best phone''
        Bengali True
       = (([CallTranslate ''Best phone'' Hindi],
           [cacheKeyOf ''Best phone'' Bengali \<mapsto>
              \<lparr> language_lc = Bengali, originalText = ''Best phone'',
                translatedText = ''[Fallback via Hindi] translated Best phone'',
                translatedAt = 0 \<rparr>]),
          Inr ''[Fallback via Hindi] translated Best phone'')"
    by (simp add: translateToIndianLanguage_def exampleService_def fallbackMarker_def)
  have n: "translateToIndianLanguage (exampleService (Inr emptyIntent)) 0 Map.empty ''Best phone''
        (Native Tamil) True
       = (([CallTranslate ''Best phone'' Tamil],
           [cacheKeyOf ''Best phone'' (Native Tamil) \<mapsto>
              \<lparr> language_lc = Native Tamil, originalText = ''Best phone'',
                translatedText = ''translated Best phone'', translatedAt = 0 \<rparr>]),
          Inr ''translated Best phone'')"
    by (simp add: translateToIndianLanguage_def exampleService_def)
  have c1: "prefix fallbackMarker ''[Fallback via Hindi] translated Best phone''"
    using fallback_translation_is_marked[OF r b] by blast
  have c2: "Inr ''translated Best phone''
       = translateForIndianLanguage (exampleService (Inr emptyIntent)) ''Best phone'' Tamil"
    using fallback_translation_is_marked[OF r n] by simp
  have r1: "reachableCache
         [cacheKeyOf ''Best phone'' Bengali \<mapsto>
              \<lparr> language_lc = Bengali, originalText = ''Best phone'',
                translatedText = ''[Fallback via Hindi] translated Best phone'',
                translatedAt = 0 \<rparr>]"
    using reachableCache.translated[OF r b] .
  have h: "translateToIndianLanguage (exampleService (Inr emptyIntent)) 1
          [cacheKeyOf ''Best phone'' Bengali \<mapsto>
              \<lparr> language_lc = Bengali, originalText = ''Best phone'',
                translatedText = ''[Fallback via Hindi] translated Best phone'',
                translatedAt = 0 \<rparr>]
          ''Best phone'' Bengali True
       = (([],
           [cacheKeyOf ''Best phone'' Bengali \<mapsto>
              \<lparr> language_lc = Bengali, originalText = ''Best phone'',
                translatedText = ''[Fallback via Hindi] translated Best phone'',
                translatedAt = 0 \<rparr>]),
          Inr ''[Fallback via Hindi] translated Best phone'')"
    by (simp add: translateToIndianLanguage_def)
  have c3: "prefix fallbackMarker ''[Fallback via Hindi] translated Best phone''"
    using fallback_translation_is_marked[OF r1 h] by blast
  have rf: "reachableMarkerFree Map.empty" by (rule reachableMarkerFree.initial_free)
  have mf: "markerFree (exampleService (Inr emptyIntent))"
    by (auto simp: markerFree_def exampleService_def fallbackMarker_def)
  have rf1: "reachableMarkerFree
         [cacheKeyOf ''Best phone'' (Native Tamil) \<mapsto>
              \<lparr> language_lc = Native Tamil, originalText = ''Best phone'',
                translatedText = ''translated Best phone'', translatedAt = 0 \<rparr>]"
    using reachableMarkerFree.translated_free[OF rf mf n] .
  have r2: "reachableCache
         [cacheKeyOf ''Best phone'' (Native Tamil) \<mapsto>
              \<lparr> language_lc = Native Tamil, originalText = ''Best phone'',
                translatedText = ''translated Best phone'', translatedAt = 0 \<rparr>]"
    using reachableCache.translated[OF r n] .
  have hn: "translateToIndianLanguage (exampleService (Inr emptyIntent)) 1
          [cacheKeyOf ''Best phone'' (Native Tamil) \<mapsto>
              \<lparr> language_lc = Native Tamil, originalText = ''Best phone'',
                translatedText = ''translated Best phone'', translatedAt = 0 \<rparr>]
          ''Best phone'' (Native Tamil) True
       = (([],
           [cacheKeyOf ''Best phone'' (Native Tamil) \<mapsto>
              \<lparr> language_lc = Native Tamil, originalText = ''Best phone'',
                translatedText = ''translated Best phone'', translatedAt = 0 \<rparr>]),
          Inr ''translated Best phone'')"
    by (simp add: translateToIndianLanguage_def)
  have c4: "\<not> prefix fallbackMarker ''translated Best phone''"
    using fallback_translation_is_marked[OF r2 hn] rf1 mf by blast
  show ?thesis
    by (intro conjI) (rule r, rule b, rule c1, rule n, rule c2, rule r1, rule h, rule rf,
        rule mf, rule rf1, rule hn, rule c4)
qed

end
